theory Spec2Isabelle
  imports Complex_Main "HOL-Library.Word" "HOL-Library.Sublist"
begin

section \<open>The static-asset server (server.ts)\<close>

text \<open>
  The server is a Bun script; its bundled source is the second document of
  \<^verbatim>\<open>frontend/src/hooks/useAuth.ts\<close>.  Everything it takes from the platform (the file
  system seen through \<^verbatim>\<open>readdir\<close> and \<^verbatim>\<open>Bun.file\<close>, \<^verbatim>\<open>path.join\<close>, the MD5 hex
  digest of \<^verbatim>\<open>crypto\<close>, \<^verbatim>\<open>Bun.gzipSync\<close>, whether \<^verbatim>\<open>Bun.serve\<close> can bind the port) is a
  field of the record \<open>platform\<close>; the code of the script is translated function by
  function over it.  A thrown exception is the \<open>Inl\<close> of a sum.
\<close>

type_synonym bytes = "8 word list"

datatype io_error = IOError string

text \<open>What \<^verbatim>\<open>Bun.file(path)\<close> answers: \<^verbatim>\<open>exists()\<close>, \<^verbatim>\<open>size\<close>, \<^verbatim>\<open>type\<close>, \<^verbatim>\<open>arrayBuffer()\<close>
  and \<^verbatim>\<open>text()\<close>; the two reads may throw.\<close>

record bun_file =
  file_exists :: bool
  file_size :: nat
  file_type :: string
  arrayBuffer :: "io_error + bytes"
  file_text :: "io_error + string"

record platform =
  readdir :: "string \<Rightarrow> io_error + string list"
  bun_file_at :: "string \<Rightarrow> bun_file"
  path_join :: "string \<Rightarrow> string \<Rightarrow> string"
  md5_hex :: "bytes \<Rightarrow> string"
  gzipSync :: "bytes \<Rightarrow> bytes"
  bun_serve :: "io_error option"

definition CLIENT_DIR :: string where
  "CLIENT_DIR = ''.''"

definition MAX_ASSET_SIZE :: nat where
  "MAX_ASSET_SIZE = 5 * 1024 * 1024"

definition ENABLE_GZIP :: bool where
  "ENABLE_GZIP = True"

definition ENABLE_ETAGS :: bool where
  "ENABLE_ETAGS = True"

definition GZIP_THRESHOLD :: nat where
  "GZIP_THRESHOLD = 1024"

text \<open>An entry of the \<^verbatim>\<open>assets\<close> map.  \<open>content = None\<close> is the source's
  \<^verbatim>\<open>content: null\<close>; a field the source never sets (\<^verbatim>\<open>etag\<close>, \<^verbatim>\<open>gzipped\<close>, \<^verbatim>\<open>path\<close>)
  is \<open>None\<close>.\<close>

record asset =
  content :: "bytes option"
  asset_type :: string
  etag :: "string option"
  gzipped :: "bytes option"
  asset_path :: "string option"

type_synonym asset_map = "string \<rightharpoonup> asset"

definition dquote :: char where
  "dquote = CHR 0x22"

definition backslash :: char where
  "backslash = CHR 0x5C"

definition generateETag :: "platform \<Rightarrow> bytes \<Rightarrow> string" where
  "generateETag p c = dquote # md5_hex p c @ [dquote]"

definition gzipContent :: "platform \<Rightarrow> bytes \<Rightarrow> bytes" where
  "gzipContent p c = gzipSync p c"

text \<open>\<^verbatim>\<open>file.type || "application/octet-stream"\<close>: the empty string is falsy.\<close>

definition type_or_default :: "bun_file \<Rightarrow> string" where
  "type_or_default f = (if file_type f = [] then ''application/octet-stream'' else file_type f)"

text \<open>\<^verbatim>\<open>`/${relativePath.split("\\").join("/")}`\<close>: every backslash becomes a slash.\<close>

definition route_of :: "string \<Rightarrow> string" where
  "route_of relativePath =
     CHR ''/'' # map (\<lambda>c. if c = backslash then CHR ''/'' else c) relativePath"

definition memory_asset :: "platform \<Rightarrow> bun_file \<Rightarrow> bytes \<Rightarrow> asset" where
  "memory_asset p f c =
     \<lparr> content = Some c,
       asset_type = type_or_default f,
       etag = (if ENABLE_ETAGS then Some (generateETag p c) else None),
       gzipped = (if ENABLE_GZIP \<and> length c > GZIP_THRESHOLD
                  then Some (gzipContent p c) else None),
       asset_path = None \<rparr>"

definition disk_asset :: "bun_file \<Rightarrow> string \<Rightarrow> asset" where
  "disk_asset f filepath =
     \<lparr> content = None,
       asset_type = type_or_default f,
       etag = None,
       gzipped = None,
       asset_path = Some filepath \<rparr>"

text \<open>The body of the \<^verbatim>\<open>for\<close> loop of \<^verbatim>\<open>loadStaticAssets\<close>, one listed path after
  the other, on the map built so far.  A failing \<^verbatim>\<open>arrayBuffer()\<close> leaves the loop.\<close>

fun load_files :: "platform \<Rightarrow> string list \<Rightarrow> asset_map \<Rightarrow> io_error + asset_map" where
  "load_files p [] assets = Inr assets"
| "load_files p (relativePath # rest) assets =
     (let filepath = path_join p CLIENT_DIR relativePath;
          file = bun_file_at p filepath
      in if \<not> file_exists file \<or> file_size file = 0 then load_files p rest assets
         else
           let route = route_of relativePath;
               fileSize = file_size file;
               shouldLoadInMemory = fileSize \<le> MAX_ASSET_SIZE
           in if shouldLoadInMemory then
                (case arrayBuffer file of
                   Inl e \<Rightarrow> Inl e
                 | Inr c \<Rightarrow> load_files p rest (assets(route \<mapsto> memory_asset p file c)))
              else load_files p rest (assets(route \<mapsto> disk_asset file filepath)))"

definition loadStaticAssets :: "platform \<Rightarrow> asset_map \<Rightarrow> io_error + asset_map" where
  "loadStaticAssets p assets =
     (case readdir p CLIENT_DIR of
        Inl e \<Rightarrow> Inl e
      | Inr files \<Rightarrow> load_files p files assets)"

subsection \<open>Requests and responses\<close>

text \<open>Of a request the handler reads \<^verbatim>\<open>new URL(request.url).pathname\<close> and
  \<^verbatim>\<open>request.headers.get(name)\<close>, which is \<open>None\<close> for an absent header.\<close>

record request =
  pathname :: string
  req_header :: "string \<rightharpoonup> string"

datatype body = NoBody | BytesBody bytes | FileBody string | TextBody string

record response =
  status :: nat
  headers :: "string \<rightharpoonup> string"
  body :: body

text \<open>\<^verbatim>\<open>String.prototype.includes\<close>.\<close>

fun str_includes :: "string \<Rightarrow> string \<Rightarrow> bool" where
  "str_includes [] sub = (sub = [])"
| "str_includes (c # cs) sub = (prefix sub (c # cs) \<or> str_includes cs sub)"

definition base_headers :: "asset \<Rightarrow> string \<rightharpoonup> string" where
  "base_headers a =
     [''Content-Type'' \<mapsto> asset_type a,
      ''Cache-Control'' \<mapsto> ''public, max-age=31536000, immutable'']"

text \<open>\<^verbatim>\<open>serveAsset\<close>.  Truthiness is written out: a string is truthy when it is not
  empty, a buffer always, \<^verbatim>\<open>null\<close> and \<^verbatim>\<open>undefined\<close> never.  A \<^verbatim>\<open>Response\<close> built
  without a status has status 200.\<close>

definition serveAsset :: "asset_map \<Rightarrow> request \<Rightarrow> string \<Rightarrow> response option" where
  "serveAsset assets req route =
     (case assets route of
        None \<Rightarrow> None
      | Some a \<Rightarrow>
          let acceptEncoding = (case req_header req ''accept-encoding'' of
                                  None \<Rightarrow> [] | Some v \<Rightarrow> v);
              ifNoneMatch = req_header req ''if-none-match''
          in if ENABLE_ETAGS \<and> etag a \<noteq> None \<and> etag a \<noteq> Some [] \<and> ifNoneMatch = etag a
             then Some \<lparr> status = 304, headers = Map.empty, body = NoBody \<rparr>
             else
               let hdrs = (case etag a of
                             None \<Rightarrow> base_headers a
                           | Some t \<Rightarrow> if t = [] then base_headers a
                                       else (base_headers a)(''ETag'' \<mapsto> t))
               in (case content a of
                     Some c \<Rightarrow>
                       (case gzipped a of
                          Some g \<Rightarrow>
                            if str_includes acceptEncoding ''gzip''
                            then Some \<lparr> status = 200,
                                        headers = hdrs(''Content-Encoding'' \<mapsto> ''gzip''),
                                        body = BytesBody g \<rparr>
                            else Some \<lparr> status = 200, headers = hdrs, body = BytesBody c \<rparr>
                        | None \<Rightarrow> Some \<lparr> status = 200, headers = hdrs, body = BytesBody c \<rparr>)
                   | None \<Rightarrow>
                       (case asset_path a of
                          Some path \<Rightarrow>
                            if path \<noteq> []
                            then Some \<lparr> status = 200, headers = hdrs, body = FileBody path \<rparr>
                            else None
                        | None \<Rightarrow> None)))"

record server =
  assets_of :: asset_map
  indexHtml :: string

definition spa_shell :: "server \<Rightarrow> response" where
  "spa_shell s =
     \<lparr> status = 200, headers = [''Content-Type'' \<mapsto> ''text/html''],
       body = TextBody (indexHtml s) \<rparr>"

text \<open>The \<^verbatim>\<open>fetch\<close> handler given to \<^verbatim>\<open>Bun.serve\<close>.\<close>

definition fetch :: "server \<Rightarrow> request \<Rightarrow> response" where
  "fetch s req =
     (case serveAsset (assets_of s) req (pathname req) of
        Some staticResponse \<Rightarrow> staticResponse
      | None \<Rightarrow> spa_shell s)"

text \<open>The process after \<^verbatim>\<open>startServer().catch(...)\<close> has run: it listens with the
  state the handler closes over, or it has left through \<^verbatim>\<open>process.exit(1)\<close>.
  \<^verbatim>\<open>assets\<close> is the empty module-level map when \<^verbatim>\<open>startServer\<close> runs.\<close>

datatype process = Listening server | Exited nat

definition startServer :: "platform \<Rightarrow> io_error + server" where
  "startServer p =
     (case loadStaticAssets p Map.empty of
        Inl e \<Rightarrow> Inl e
      | Inr assets \<Rightarrow>
          (case file_text (bun_file_at p (path_join p CLIENT_DIR ''index.html'')) of
             Inl e \<Rightarrow> Inl e
           | Inr html \<Rightarrow>
               (case bun_serve p of
                  Some e \<Rightarrow> Inl e
                | None \<Rightarrow> Inr \<lparr> assets_of = assets, indexHtml = html \<rparr>)))"

definition main :: "platform \<Rightarrow> process" where
  "main p = (case startServer p of Inl e \<Rightarrow> Exited 1 | Inr s \<Rightarrow> Listening s)"

text \<open>What a client gets from the process: a response while it listens, nothing
  once it has exited.\<close>

fun answer :: "process \<Rightarrow> request \<Rightarrow> response option" where
  "answer (Listening s) req = Some (fetch s req)"
| "answer (Exited code) req = None"


subsection \<open>What the loading loop registers for one listed path\<close>

text \<open>The entry one pass of the loop writes for a path, \<open>None\<close> when the pass writes
  nothing; used to state what the finished map holds.\<close>

definition registered_entry :: "platform \<Rightarrow> string \<Rightarrow> asset option" where
  "registered_entry p relativePath =
     (let filepath = path_join p CLIENT_DIR relativePath;
          file = bun_file_at p filepath
      in if \<not> file_exists file \<or> file_size file = 0 then None
         else if file_size file \<le> MAX_ASSET_SIZE then
           (case arrayBuffer file of Inl e \<Rightarrow> None | Inr c \<Rightarrow> Some (memory_asset p file c))
         else Some (disk_asset file filepath))"

definition register :: "platform \<Rightarrow> string \<Rightarrow> asset_map \<Rightarrow> asset_map" where
  "register p rel m =
     (case registered_entry p rel of None \<Rightarrow> m | Some a \<Rightarrow> m(route_of rel \<mapsto> a))"

section \<open>The slug of a post title (the post editor)\<close>

text \<open>
  A JavaScript string is a sequence of UTF-16 code units.  \<^verbatim>\<open>toLowerCase\<close> is the
  engine's; it is a parameter of \<open>generateSlug\<close>.  The two regular expressions have no
  \<^verbatim>\<open>u\<close> flag, so they read the string one code unit at a time.
\<close>

type_synonym js_string = "16 word list"

text \<open>An ASCII literal as code units.\<close>

definition js :: "string \<Rightarrow> js_string" where
  "js s = map of_char s"

definition hyphen :: "16 word" where
  "hyphen = 0x2D"

definition slug_alnum :: "16 word \<Rightarrow> bool" where
  "slug_alnum c = ((0x61 \<le> c \<and> c \<le> 0x7A) \<or> (0x30 \<le> c \<and> c \<le> 0x39))"

text \<open>\<^verbatim>\<open>.replace(/[^a-z0-9]+/g, '-')\<close>: every maximal run of code units outside
  a-z and 0-9 becomes one hyphen.\<close>

function replace_runs :: "js_string \<Rightarrow> js_string" where
  "replace_runs [] = []"
| "replace_runs (c # cs) =
     (if slug_alnum c then c # replace_runs cs
      else hyphen # replace_runs (dropWhile (\<lambda>x. \<not> slug_alnum x) cs))"
  by pat_completeness auto
termination
  by (relation "measure length") (auto simp: length_dropWhile_le less_Suc_eq_le)

text \<open>\<^verbatim>\<open>.replace(/^-|-$/g, '')\<close>: a hyphen at the very start is removed, and so is a
  hyphen at the very end of what is left (one hyphen is not matched twice).\<close>

definition strip_edge_hyphens :: "js_string \<Rightarrow> js_string" where
  "strip_edge_hyphens s =
     (let s1 = (case s of [] \<Rightarrow> [] | c # cs \<Rightarrow> if c = hyphen then cs else s)
      in if s1 \<noteq> [] \<and> last s1 = hyphen then butlast s1 else s1)"

definition generateSlug :: "(js_string \<Rightarrow> js_string) \<Rightarrow> js_string \<Rightarrow> js_string" where
  "generateSlug toLowerCase title = strip_edge_hyphens (replace_runs (toLowerCase title))"

text \<open>Two hyphens in a row somewhere in the string; the code units of a slug; the
  first half of \<open>strip_edge_hyphens\<close>.\<close>

fun double_hyphen :: "js_string \<Rightarrow> bool" where
  "double_hyphen (a # b # cs) = ((a = hyphen \<and> b = hyphen) \<or> double_hyphen (b # cs))"
| "double_hyphen _ = False"

definition slug_char :: "16 word \<Rightarrow> bool" where
  "slug_char c = (slug_alnum c \<or> c = hyphen)"

definition drop_leading :: "js_string \<Rightarrow> js_string" where
  "drop_leading s = (case s of [] \<Rightarrow> [] | c # cs \<Rightarrow> if c = hyphen then cs else s)"

section \<open>The blog API client (api/blog.ts) and the cookie helper (lib/getCookie.ts)\<close>

text \<open>
  A JSON value, as \<^verbatim>\<open>JSON.parse\<close> returns it and \<^verbatim>\<open>JSON.stringify\<close> takes it.  An
  object is the list of its properties in order.
\<close>

datatype json = JNull | JBool bool | JNum real | JStr string
  | JArr "json list" | JObj "(string \<times> json) list"

text \<open>
  The strings of the client are JavaScript strings, sequences of UTF-16 code units.
  What it reads from the browser: \<^verbatim>\<open>document.cookie\<close>, the engine's
  \<^verbatim>\<open>decodeURIComponent\<close> (which throws a URIError on a malformed escape) and the two
  build-time variables.
\<close>

datatype js_error = URIError

datatype js_file = File js_string bytes

record browser =
  document_cookie :: js_string
  decodeURIComponent :: "js_string \<Rightarrow> js_error + js_string"
  VITE_PROJECT_NAME :: "js_string option"
  VITE_API_URL :: "js_string option"

text \<open>\<^verbatim>\<open>value || default\<close> on a string that may be undefined.\<close>

definition or_default :: "js_string option \<Rightarrow> js_string \<Rightarrow> js_string" where
  "or_default v d = (case v of None \<Rightarrow> d | Some s \<Rightarrow> if s = [] then d else s)"

definition PROJECT_NAME :: "browser \<Rightarrow> js_string" where
  "PROJECT_NAME b = or_default (VITE_PROJECT_NAME b) (js ''django'')"

definition API_BASE :: "browser \<Rightarrow> js_string" where
  "API_BASE b = or_default (VITE_API_URL b) (js ''/api/v1'')"

definition getCookieName :: "browser \<Rightarrow> js_string \<Rightarrow> js_string" where
  "getCookieName b baseName = PROJECT_NAME b @ js ''_'' @ baseName"

text \<open>\<^verbatim>\<open>String.prototype.split\<close> on a one-character separator.\<close>

fun split_on :: "16 word \<Rightarrow> js_string \<Rightarrow> js_string list" where
  "split_on d [] = [[]]"
| "split_on d (c # cs) =
     (if c = d then [] # split_on d cs
      else (case split_on d cs of [] \<Rightarrow> [[c]] | w # ws \<Rightarrow> (c # w) # ws))"

text \<open>
  \<^verbatim>\<open>String.prototype.trim\<close> removes the white space and the line terminators of
  ECMAScript from both ends: TAB, LF, VT, FF, CR, SPACE, U+00A0, U+1680, U+2000 to
  U+200A, U+2028, U+2029, U+202F, U+205F, U+3000 and U+FEFF.
\<close>

definition js_space :: "16 word \<Rightarrow> bool" where
  "js_space c =
     (c \<in> {0x09, 0x0A, 0x0B, 0x0C, 0x0D, 0x20, 0xA0, 0x1680, 0x2028, 0x2029, 0x202F,
            0x205F, 0x3000, 0xFEFF} \<or>
      (0x2000 \<le> c \<and> c \<le> 0x200A))"

definition trim :: "js_string \<Rightarrow> js_string" where
  "trim s = rev (dropWhile js_space (rev (dropWhile js_space s)))"

text \<open>The loop of \<^verbatim>\<open>getCookie\<close>: the first cookie that begins with the name and an
  equals sign gives the value, decoded.\<close>

fun find_cookie ::
  "browser \<Rightarrow> js_string \<Rightarrow> js_string list \<Rightarrow> js_error + js_string option" where
  "find_cookie b name [] = Inr None"
| "find_cookie b name (raw # rest) =
     (let cookie = trim raw
      in if take (length name + 1) cookie = name @ js ''=''
         then (case decodeURIComponent b (drop (length name + 1) cookie) of
                 Inl e \<Rightarrow> Inl e
               | Inr v \<Rightarrow> Inr (Some v))
         else find_cookie b name rest)"

definition getCookie :: "browser \<Rightarrow> js_string \<Rightarrow> js_error + js_string option" where
  "getCookie b name =
     (if document_cookie b \<noteq> []
      then find_cookie b name (split_on 0x3B (document_cookie b))
      else Inr None)"

definition getCSRFToken :: "browser \<Rightarrow> js_error + js_string option" where
  "getCSRFToken b = getCookie b (getCookieName b (js ''csrftoken''))"

text \<open>
  What a function of the client hands to \<^verbatim>\<open>fetch\<close>: the URL and the init object.
  The headers are the properties of the object literal, in order.  A body is kept as
  what it is built from.  A function returns \<open>Inl\<close> when it throws before it calls
  \<^verbatim>\<open>fetch\<close>.
\<close>

datatype http_method = GET | POST | PATCH | DELETE

record post_data =
  featured_image :: "js_file option"
  og_image :: "js_file option"
  post_fields :: "(string \<times> json) list"

datatype request_body =
    NoRequestBody
  | JsonOf json
  | JsonOfPost post_data
  | PostFormData post_data
  | ImageFormData js_file "js_string option"

record fetch_call =
  fc_url :: js_string
  fc_method :: http_method
  fc_headers :: "(js_string \<times> js_string) list"
  fc_credentials :: "js_string option"
  fc_body :: request_body

text \<open>\<^verbatim>\<open>getAuthHeaders\<close>; \<^verbatim>\<open>csrfToken || ''\<close> is the token, or the empty string for
  \<^verbatim>\<open>null\<close> (and for an empty token).\<close>

definition getAuthHeaders :: "browser \<Rightarrow> js_error + (js_string \<times> js_string) list" where
  "getAuthHeaders b =
     (case getCSRFToken b of
        Inl e \<Rightarrow> Inl e
      | Inr csrfToken \<Rightarrow>
          Inr [(js ''X-CSRFToken'', (case csrfToken of None \<Rightarrow> [] | Some t \<Rightarrow> t))])"

text \<open>\<^verbatim>\<open>`${id}`\<close> for a record's numeric id, a non-negative integer (a database
  key; JavaScript prints an integer of that size in decimal).\<close>

fun number_to_string :: "nat \<Rightarrow> js_string" where
  "number_to_string n =
     (if n < 10 then [of_nat (48 + n)]
      else number_to_string (n div 10) @ [of_nat (48 + n mod 10)])"

declare number_to_string.simps [simp del]

definition incrementViewCount :: "browser \<Rightarrow> js_string \<Rightarrow> js_error + fetch_call" where
  "incrementViewCount b slug =
     Inr \<lparr> fc_url = API_BASE b @ js ''/blog/posts/'' @ slug @ js ''/view/'',
           fc_method = POST,
           fc_headers = [], fc_credentials = None, fc_body = NoRequestBody \<rparr>"

text \<open>\<^verbatim>\<open>createPost\<close> and \<^verbatim>\<open>updatePost\<close>: a multipart body when an image file is
  attached, JSON otherwise.\<close>

definition createPost :: "browser \<Rightarrow> post_data \<Rightarrow> js_error + fetch_call" where
  "createPost b data =
     (let hasFeaturedImage = (featured_image data \<noteq> None);
          hasOgImage = (og_image data \<noteq> None)
      in case (if hasFeaturedImage \<or> hasOgImage
               then (case getAuthHeaders b of
                       Inl e \<Rightarrow> Inl e
                     | Inr auth \<Rightarrow> Inr (PostFormData data, auth))
               else (case getAuthHeaders b of
                       Inl e \<Rightarrow> Inl e
                     | Inr auth \<Rightarrow>
                         Inr (JsonOfPost data,
                              (js ''Content-Type'', js ''application/json'') # auth)))
         of Inl e \<Rightarrow> Inl e
          | Inr (payload, hdrs) \<Rightarrow>
              Inr \<lparr> fc_url = API_BASE b @ js ''/blog/posts/'', fc_method = POST,
                    fc_headers = hdrs, fc_credentials = Some (js ''include''), fc_body = payload \<rparr>)"

definition updatePost :: "browser \<Rightarrow> js_string \<Rightarrow> post_data \<Rightarrow> js_error + fetch_call" where
  "updatePost b slug data =
     (let hasFeaturedImage = (featured_image data \<noteq> None);
          hasOgImage = (og_image data \<noteq> None)
      in case (if hasFeaturedImage \<or> hasOgImage
               then (case getAuthHeaders b of
                       Inl e \<Rightarrow> Inl e
                     | Inr auth \<Rightarrow> Inr (PostFormData data, auth))
               else (case getAuthHeaders b of
                       Inl e \<Rightarrow> Inl e
                     | Inr auth \<Rightarrow>
                         Inr (JsonOfPost data,
                              (js ''Content-Type'', js ''application/json'') # auth)))
         of Inl e \<Rightarrow> Inl e
          | Inr (payload, hdrs) \<Rightarrow>
              Inr \<lparr> fc_url = API_BASE b @ js ''/blog/posts/'' @ slug @ js ''/'',
                    fc_method = PATCH,
                    fc_headers = hdrs, fc_credentials = Some (js ''include''), fc_body = payload \<rparr>)"

definition deletePost :: "browser \<Rightarrow> js_string \<Rightarrow> js_error + fetch_call" where
  "deletePost b slug =
     (case getAuthHeaders b of
        Inl e \<Rightarrow> Inl e
      | Inr auth \<Rightarrow>
          Inr \<lparr> fc_url = API_BASE b @ js ''/blog/posts/'' @ slug @ js ''/'', fc_method = DELETE,
                fc_headers = auth, fc_credentials = Some (js ''include''),
                fc_body = NoRequestBody \<rparr>)"

text \<open>The image form has the \<^verbatim>\<open>alt_text\<close> field when the text is truthy.\<close>

definition uploadBlogImage ::
  "browser \<Rightarrow> js_file \<Rightarrow> js_string option \<Rightarrow> js_error + fetch_call" where
  "uploadBlogImage b file altText =
     (case getAuthHeaders b of
        Inl e \<Rightarrow> Inl e
      | Inr auth \<Rightarrow>
          Inr \<lparr> fc_url = API_BASE b @ js ''/blog/upload-image/'', fc_method = POST,
                fc_headers = auth, fc_credentials = Some (js ''include''),
                fc_body = ImageFormData file
                            (case altText of None \<Rightarrow> None
                             | Some t \<Rightarrow> if t = [] then None else Some t) \<rparr>)"

definition createCategory :: "browser \<Rightarrow> json \<Rightarrow> js_error + fetch_call" where
  "createCategory b data =
     (case getAuthHeaders b of
        Inl e \<Rightarrow> Inl e
      | Inr auth \<Rightarrow>
          Inr \<lparr> fc_url = API_BASE b @ js ''/blog/categories/'', fc_method = POST,
                fc_headers = (js ''Content-Type'', js ''application/json'') # auth,
                fc_credentials = Some (js ''include''), fc_body = JsonOf data \<rparr>)"

definition updateCategory :: "browser \<Rightarrow> nat \<Rightarrow> json \<Rightarrow> js_error + fetch_call" where
  "updateCategory b ident data =
     (case getAuthHeaders b of
        Inl e \<Rightarrow> Inl e
      | Inr auth \<Rightarrow>
          Inr \<lparr> fc_url = API_BASE b @ js ''/blog/categories/'' @ number_to_string ident @ js ''/'',
                fc_method = PATCH,
                fc_headers = (js ''Content-Type'', js ''application/json'') # auth,
                fc_credentials = Some (js ''include''), fc_body = JsonOf data \<rparr>)"

definition deleteCategory :: "browser \<Rightarrow> nat \<Rightarrow> js_error + fetch_call" where
  "deleteCategory b ident =
     (case getAuthHeaders b of
        Inl e \<Rightarrow> Inl e
      | Inr auth \<Rightarrow>
          Inr \<lparr> fc_url = API_BASE b @ js ''/blog/categories/'' @ number_to_string ident @ js ''/'',
                fc_method = DELETE,
                fc_headers = auth, fc_credentials = Some (js ''include''),
                fc_body = NoRequestBody \<rparr>)"

definition createTag :: "browser \<Rightarrow> json \<Rightarrow> js_error + fetch_call" where
  "createTag b data =
     (case getAuthHeaders b of
        Inl e \<Rightarrow> Inl e
      | Inr auth \<Rightarrow>
          Inr \<lparr> fc_url = API_BASE b @ js ''/blog/tags/'', fc_method = POST,
                fc_headers = (js ''Content-Type'', js ''application/json'') # auth,
                fc_credentials = Some (js ''include''), fc_body = JsonOf data \<rparr>)"

definition updateTag :: "browser \<Rightarrow> nat \<Rightarrow> json \<Rightarrow> js_error + fetch_call" where
  "updateTag b ident data =
     (case getAuthHeaders b of
        Inl e \<Rightarrow> Inl e
      | Inr auth \<Rightarrow>
          Inr \<lparr> fc_url = API_BASE b @ js ''/blog/tags/'' @ number_to_string ident @ js ''/'',
                fc_method = PATCH,
                fc_headers = (js ''Content-Type'', js ''application/json'') # auth,
                fc_credentials = Some (js ''include''), fc_body = JsonOf data \<rparr>)"

definition deleteTag :: "browser \<Rightarrow> nat \<Rightarrow> js_error + fetch_call" where
  "deleteTag b ident =
     (case getAuthHeaders b of
        Inl e \<Rightarrow> Inl e
      | Inr auth \<Rightarrow>
          Inr \<lparr> fc_url = API_BASE b @ js ''/blog/tags/'' @ number_to_string ident @ js ''/'',
                fc_method = DELETE,
                fc_headers = auth, fc_credentials = Some (js ''include''),
                fc_body = NoRequestBody \<rparr>)"

text \<open>The state-changing calls of the client, and the request each one issues.\<close>

datatype api_call =
    IncrementViewCount js_string
  | CreatePost post_data
  | UpdatePost js_string post_data
  | DeletePost js_string
  | UploadBlogImage js_file "js_string option"
  | CreateCategory json
  | UpdateCategory nat json
  | DeleteCategory nat
  | CreateTag json
  | UpdateTag nat json
  | DeleteTag nat

fun issued :: "browser \<Rightarrow> api_call \<Rightarrow> js_error + fetch_call" where
  "issued b (IncrementViewCount slug) = incrementViewCount b slug"
| "issued b (CreatePost data) = createPost b data"
| "issued b (UpdatePost slug data) = updatePost b slug data"
| "issued b (DeletePost slug) = deletePost b slug"
| "issued b (UploadBlogImage file altText) = uploadBlogImage b file altText"
| "issued b (CreateCategory data) = createCategory b data"
| "issued b (UpdateCategory ident data) = updateCategory b ident data"
| "issued b (DeleteCategory ident) = deleteCategory b ident"
| "issued b (CreateTag data) = createTag b data"
| "issued b (UpdateTag ident data) = updateTag b ident data"
| "issued b (DeleteTag ident) = deleteTag b ident"

fun is_view_count :: "api_call \<Rightarrow> bool" where
  "is_view_count (IncrementViewCount slug) = True"
| "is_view_count c = False"

definition header :: "fetch_call \<Rightarrow> js_string \<Rightarrow> js_string option" where
  "header rq name = map_of (fc_headers rq) name"

section \<open>The theme loader (themeLoader.ts)\<close>

text \<open>
  Reading a property gives \<open>None\<close> for \<^verbatim>\<open>undefined\<close>: of the values of JSON only an
  object has the properties the loader reads.  Assigning a property replaces it where
  it stands or adds it at the end.
\<close>

fun get_prop :: "json \<Rightarrow> string \<Rightarrow> json option" where
  "get_prop (JObj props) k = map_of props k"
| "get_prop v k = None"

fun update_prop :: "string \<Rightarrow> json \<Rightarrow> (string \<times> json) list \<Rightarrow> (string \<times> json) list" where
  "update_prop k v [] = [(k, v)]"
| "update_prop k v ((k', v') # props) =
     (if k' = k then (k, v) # props else (k', v') # update_prop k v props)"

fun set_prop :: "json \<Rightarrow> string \<Rightarrow> json \<Rightarrow> json" where
  "set_prop (JObj props) k v = JObj (update_prop k v props)"
| "set_prop d k v = d"

text \<open>Truthiness, and \<^verbatim>\<open>typeof v === 'object'\<close>.\<close>

fun truthy :: "json option \<Rightarrow> bool" where
  "truthy None = False"
| "truthy (Some JNull) = False"
| "truthy (Some (JBool b)) = b"
| "truthy (Some (JNum n)) = (n \<noteq> 0)"
| "truthy (Some (JStr s)) = (s \<noteq> [])"
| "truthy (Some (JArr xs)) = True"
| "truthy (Some (JObj props)) = True"

fun typeof_object :: "json \<Rightarrow> bool" where
  "typeof_object JNull = True"
| "typeof_object (JArr xs) = True"
| "typeof_object (JObj props) = True"
| "typeof_object v = False"

text \<open>\<^verbatim>\<open>themeData.cssVars.theme\<close>, read after \<^verbatim>\<open>themeData.cssVars\<close> was found truthy.\<close>

definition get_path :: "json \<Rightarrow> string \<Rightarrow> string \<Rightarrow> json option" where
  "get_path d k1 k2 = (case get_prop d k1 of None \<Rightarrow> None | Some v \<Rightarrow> get_prop v k2)"

definition validateThemeData :: "json \<Rightarrow> bool" where
  "validateThemeData themeData =
     (truthy (Some themeData) \<and>
      typeof_object themeData \<and>
      (truthy (get_prop themeData ''theme_name'') \<or> truthy (get_prop themeData ''name'')) \<and>
      truthy (get_prop themeData ''display_name'') \<and>
      truthy (get_prop themeData ''cssVars'') \<and>
      truthy (get_path themeData ''cssVars'' ''theme'') \<and>
      truthy (get_path themeData ''cssVars'' ''light'') \<and>
      truthy (get_path themeData ''cssVars'' ''dark''))"

definition normalizeThemeData :: "json \<Rightarrow> json" where
  "normalizeThemeData themeData =
     (let d1 = (if \<not> truthy (get_prop themeData ''theme_name'') \<and>
                   truthy (get_prop themeData ''name'')
                then set_prop themeData ''theme_name'' (the (get_prop themeData ''name''))
                else themeData);
          d2 = (if get_prop d1 ''success'' = None
                then set_prop d1 ''success'' (JBool True)
                else d1)
      in d2)"

text \<open>\<^verbatim>\<open>loadThemes\<close> over the entries of \<^verbatim>\<open>themeImports\<close> (the imported JSON files,
  a parameter here) and the registry it writes to.  Neither function called in the
  \<^verbatim>\<open>try\<close> block can throw.\<close>

type_synonym registry = "string \<rightharpoonup> json"

fun loadThemes :: "(string \<times> json) list \<Rightarrow> registry \<Rightarrow> registry" where
  "loadThemes [] reg = reg"
| "loadThemes ((themeName, themeData) # rest) reg =
     (if validateThemeData themeData
      then loadThemes rest (reg(themeName \<mapsto> normalizeThemeData themeData))
      else loadThemes rest reg)"

section \<open>Sample inputs\<close>

text \<open>A small client directory: the shell page, a script above the gzip threshold,
  a video above the memory limit and an empty file.  The digest and the compressor
  are stand-ins (the server never looks into their results).\<close>

definition utf8 :: "string \<Rightarrow> bytes" where
  "utf8 s = map of_char s"

definition no_file :: bun_file where
  "no_file = \<lparr> file_exists = False, file_size = 0, file_type = [],
               arrayBuffer = Inl (IOError ''ENOENT''), file_text = Inl (IOError ''ENOENT'') \<rparr>"

definition regular_file :: "nat \<Rightarrow> string \<Rightarrow> bytes \<Rightarrow> string \<Rightarrow> bun_file" where
  "regular_file n t c txt =
     \<lparr> file_exists = True, file_size = n, file_type = t,
       arrayBuffer = Inr c, file_text = Inr txt \<rparr>"

definition app_js :: bytes where
  "app_js = replicate 2000 0x20"

definition sample_disk :: "string \<Rightarrow> bun_file" where
  "sample_disk path =
     (if path = ''index.html'' then
        regular_file 13 ''text/html;charset=utf-8'' (utf8 ''<html></html>'') ''<html></html>''
      else if path = ''app.js'' then
        regular_file 2000 ''text/javascript;charset=utf-8'' app_js (replicate 2000 CHR '' '')
      else if path = ''video.mp4'' then
        regular_file 6000000 ''video/mp4'' (replicate 6000000 0) []
      else if path = ''empty.txt'' then
        regular_file 0 ''text/plain;charset=utf-8'' [] []
      else no_file)"

definition sample_join :: "string \<Rightarrow> string \<Rightarrow> string" where
  "sample_join dir rel =
     (if rel = [] then ''.'' else if dir = ''.'' then rel else dir @ ''/'' @ rel)"

definition sample_platform :: platform where
  "sample_platform =
     \<lparr> readdir = (\<lambda>dir. Inr [''index.html'', ''app.js'', ''video.mp4'', ''empty.txt'']),
       bun_file_at = sample_disk,
       path_join = sample_join,
       md5_hex = (\<lambda>c. ''5d41402abc4b2a76b9719d911017c592''),
       gzipSync = (\<lambda>c. [0x1F, 0x8B, 0x08]),
       bun_serve = None \<rparr>"

definition sample_etag :: string where
  "sample_etag = dquote # ''5d41402abc4b2a76b9719d911017c592'' @ [dquote]"

definition sample_index :: asset where
  "sample_index =
     memory_asset sample_platform (sample_disk ''index.html'') (utf8 ''<html></html>'')"

definition sample_app :: asset where
  "sample_app = memory_asset sample_platform (sample_disk ''app.js'') app_js"

definition sample_video :: asset where
  "sample_video = disk_asset (sample_disk ''video.mp4'') ''video.mp4''"

definition sample_server :: server where
  "sample_server =
     \<lparr> assets_of = [''/index.html'' \<mapsto> sample_index, ''/app.js'' \<mapsto> sample_app,
                    ''/video.mp4'' \<mapsto> sample_video],
       indexHtml = ''<html></html>'' \<rparr>"

definition sample_request :: "string \<Rightarrow> string option \<Rightarrow> string option \<Rightarrow> request" where
  "sample_request path ifNoneMatch acceptEncoding =
     \<lparr> pathname = path,
       req_header = (\<lambda>h. if h = ''if-none-match'' then ifNoneMatch
                          else if h = ''accept-encoding'' then acceptEncoding else None) \<rparr>"

text \<open>Platforms on which startup fails, and a Windows-style listing.\<close>

definition unreadable_listing :: platform where
  "unreadable_listing = sample_platform \<lparr> readdir := (\<lambda>dir. Inl (IOError ''ENOENT'')) \<rparr>"

definition unreadable_script :: platform where
  "unreadable_script = sample_platform
     \<lparr> bun_file_at := (\<lambda>path. if path = ''app.js''
                                then (sample_disk path) \<lparr> arrayBuffer := Inl (IOError ''EACCES'') \<rparr>
                                else sample_disk path) \<rparr>"

definition missing_index :: platform where
  "missing_index = sample_platform
     \<lparr> bun_file_at := (\<lambda>path. if path = ''index.html'' then no_file else sample_disk path) \<rparr>"










text \<open>A lower-casing that knows the ASCII letters only, and a title.\<close>

definition ascii_lower :: "js_string \<Rightarrow> js_string" where
  "ascii_lower s = map (\<lambda>c. if 0x41 \<le> c \<and> c \<le> 0x5A then c + 0x20 else c) s"

definition sample_title :: js_string where
  "sample_title = js ''  Hello,  World! 2024 -- ok?''"

definition sample_slug :: js_string where
  "sample_slug = js ''hello-world-2024-ok''"

text \<open>A browser with a CSRF cookie, one whose cookie string has a no-break space
  after the semicolon, and a post without images.\<close>

definition no_percent_decoding :: "js_string \<Rightarrow> js_error + js_string" where
  "no_percent_decoding s = (if 0x25 \<in> set s then Inl URIError else Inr s)"

definition sample_browser :: browser where
  "sample_browser =
     \<lparr> document_cookie = js ''theme=dark; django_csrftoken=abc123; django_sessionid=xyz'',
       decodeURIComponent = no_percent_decoding,
       VITE_PROJECT_NAME = None, VITE_API_URL = None \<rparr>"

definition nbsp_browser :: browser where
  "nbsp_browser =
     \<lparr> document_cookie = js ''a=1;'' @ [0xA0] @ js ''django_csrftoken=abc'',
       decodeURIComponent = no_percent_decoding,
       VITE_PROJECT_NAME = None, VITE_API_URL = None \<rparr>"

definition sample_post :: post_data where
  "sample_post = \<lparr> featured_image = None, og_image = None,
                   post_fields = [(''title'', JStr ''Hello''), (''status'', JStr ''draft'')] \<rparr>"

definition sample_createPost_call :: fetch_call where
  "sample_createPost_call =
     \<lparr> fc_url = js ''/api/v1/blog/posts/'', fc_method = POST,
       fc_headers = [(js ''Content-Type'', js ''application/json''),
                     (js ''X-CSRFToken'', js ''abc123'')],
       fc_credentials = Some (js ''include''), fc_body = JsonOfPost sample_post \<rparr>"

definition nbsp_deletePost_call :: fetch_call where
  "nbsp_deletePost_call =
     \<lparr> fc_url = js ''/api/v1/blog/posts/hello-world/'', fc_method = DELETE,
       fc_headers = [(js ''X-CSRFToken'', js ''abc'')],
       fc_credentials = Some (js ''include''), fc_body = NoRequestBody \<rparr>"

definition sample_view_call :: fetch_call where
  "sample_view_call =
     \<lparr> fc_url = js ''/api/v1/blog/posts/hello-world/view/'', fc_method = POST,
       fc_headers = [], fc_credentials = None, fc_body = NoRequestBody \<rparr>"

text \<open>Imported theme data: a complete one, one without variables, and a complete one
  that says \<^verbatim>\<open>"success": false\<close>; and what the first and the last are once loaded.\<close>

definition css_groups :: json where
  "css_groups =
     JObj [(''theme'', JObj [(''radius'', JStr ''0.5rem'')]),
           (''light'', JObj [(''background'', JStr ''#ffffff'')]),
           (''dark'', JObj [(''background'', JStr ''#000000'')])]"

definition mono_theme :: json where
  "mono_theme =
     JObj [(''name'', JStr ''mono''), (''display_name'', JStr ''Mono''),
           (''cssVars'', css_groups)]"

definition broken_theme :: json where
  "broken_theme = JObj [(''name'', JStr ''broken''), (''display_name'', JStr ''Broken'')]"

definition quiet_theme :: json where
  "quiet_theme =
     JObj [(''name'', JStr ''quiet''), (''display_name'', JStr ''Quiet''),
           (''cssVars'', css_groups), (''success'', JBool False)]"

definition mono_loaded :: json where
  "mono_loaded =
     JObj [(''name'', JStr ''mono''), (''display_name'', JStr ''Mono''),
           (''cssVars'', css_groups), (''theme_name'', JStr ''mono''),
           (''success'', JBool True)]"

definition quiet_loaded :: json where
  "quiet_loaded =
     JObj [(''name'', JStr ''quiet''), (''display_name'', JStr ''Quiet''),
           (''cssVars'', css_groups), (''success'', JBool False),
           (''theme_name'', JStr ''quiet'')]"

section \<open>Asset loading\<close>

lemma load_files_step:
  "load_files p (rel # rest) m = Inr m' \<Longrightarrow> load_files p rest (register p rel m) = Inr m'"
  by (auto simp: Let_def registered_entry_def register_def split: if_splits sum.splits)

lemma register_other: "r \<noteq> route_of rel \<Longrightarrow> register p rel m r = m r"
  by (simp add: register_def split: option.splits)

lemma register_same:
  "register p rel m (route_of rel) =
     (case registered_entry p rel of None \<Rightarrow> m (route_of rel) | Some a \<Rightarrow> Some a)"
  by (simp add: register_def split: option.splits)


lemma load_files_origin:
  "load_files p files m = Inr m' \<Longrightarrow> m' r = Some a \<Longrightarrow>
     m r = Some a \<or> (\<exists>rel \<in> set files. route_of rel = r \<and> registered_entry p rel = Some a)"
proof (induction files arbitrary: m)
  case Nil
  then show ?case by simp
next
  case (Cons rel rest)
  from Cons.IH[OF load_files_step[OF Cons.prems(1)] Cons.prems(2)]
  show ?case
  proof
    assume reg: "register p rel m r = Some a"
    show ?thesis
    proof (cases "r = route_of rel")
      case True
      with reg show ?thesis
        by (auto simp: register_same split: option.splits)
    next
      case False
      with reg show ?thesis by (simp add: register_other)
    qed
  next
    assume "\<exists>rel\<in>set rest. route_of rel = r \<and> registered_entry p rel = Some a"
    then show ?thesis by auto
  qed
qed


lemma load_files_fails:
  "rel \<in> set files \<Longrightarrow> file_exists (bun_file_at p (path_join p CLIENT_DIR rel)) \<Longrightarrow>
   0 < file_size (bun_file_at p (path_join p CLIENT_DIR rel)) \<Longrightarrow>
   file_size (bun_file_at p (path_join p CLIENT_DIR rel)) \<le> MAX_ASSET_SIZE \<Longrightarrow>
   arrayBuffer (bun_file_at p (path_join p CLIENT_DIR rel)) = Inl e \<Longrightarrow>
   \<exists>e'. load_files p files m = Inl e'"
proof (induction files arbitrary: m)
  case Nil
  then show ?case by simp
next
  case (Cons x rest)
  show ?case
  proof (cases "rel = x")
    case True
    with Cons.prems show ?thesis by (simp add: Let_def)
  next
    case False
    with Cons.prems have "rel \<in> set rest" by simp
    from Cons.IH[OF this Cons.prems(2-5)]
    have "\<And>m. \<exists>e'. load_files p rest m = Inl e'" by blast
    then show ?thesis
      by (simp add: Let_def split: sum.splits)
  qed
qed


lemma registered_entry_cases:
  assumes "registered_entry p rel = Some a"
  obtains (memory) c where
      "file_exists (bun_file_at p (path_join p CLIENT_DIR rel))"
      "0 < file_size (bun_file_at p (path_join p CLIENT_DIR rel))"
      "file_size (bun_file_at p (path_join p CLIENT_DIR rel)) \<le> MAX_ASSET_SIZE"
      "arrayBuffer (bun_file_at p (path_join p CLIENT_DIR rel)) = Inr c"
      "a = memory_asset p (bun_file_at p (path_join p CLIENT_DIR rel)) c"
  | (disk)
      "file_exists (bun_file_at p (path_join p CLIENT_DIR rel))"
      "MAX_ASSET_SIZE < file_size (bun_file_at p (path_join p CLIENT_DIR rel))"
      "a = disk_asset (bun_file_at p (path_join p CLIENT_DIR rel)) (path_join p CLIENT_DIR rel)"
  using assms
  by (auto simp: registered_entry_def Let_def split: if_splits sum.splits)

lemma startServer_Inr:
  assumes "startServer p = Inr s"
  obtains files where
    "readdir p CLIENT_DIR = Inr files"
    "load_files p files Map.empty = Inr (assets_of s)"
    "file_text (bun_file_at p (path_join p CLIENT_DIR ''index.html'')) = Inr (indexHtml s)"
  using assms
  by (auto simp: startServer_def loadStaticAssets_def split: sum.splits option.splits)

lemma served_entry:
  assumes "startServer p = Inr s" and "assets_of s r = Some a"
  obtains files rel where
    "readdir p CLIENT_DIR = Inr files" "rel \<in> set files" "route_of rel = r"
    "registered_entry p rel = Some a"
proof -
  from assms(1) obtain files where f: "readdir p CLIENT_DIR = Inr files"
    and l: "load_files p files Map.empty = Inr (assets_of s)"
    by (rule startServer_Inr)
  from load_files_origin[OF l assms(2)] f that show thesis by auto
qed

lemma memory_entry:
  assumes "startServer p = Inr s" and "assets_of s r = Some a" and "content a = Some c"
  shows "\<exists>f. a = memory_asset p f c"
proof -
  from assms(1,2) obtain files rel where "registered_entry p rel = Some a"
    by (rule served_entry)
  then show ?thesis using assms(3)
    by (cases rule: registered_entry_cases) (auto simp: memory_asset_def disk_asset_def)
qed

lemma sample_server_started: "startServer sample_platform = Inr sample_server"
  by (simp add: startServer_def loadStaticAssets_def sample_platform_def sample_server_def
      sample_disk_def sample_join_def regular_file_def sample_index_def sample_app_def
      sample_video_def CLIENT_DIR_def MAX_ASSET_SIZE_def route_of_def backslash_def Let_def)

section \<open>Serving\<close>

lemma generateETag_nonempty: "generateETag p c \<noteq> []"
  by (simp add: generateETag_def)

lemma serve_memory_asset:
  "assets r = Some (memory_asset p f c) \<Longrightarrow>
   serveAsset assets req r =
     (if req_header req ''if-none-match'' = Some (generateETag p c)
      then Some \<lparr> status = 304, headers = Map.empty, body = NoBody \<rparr>
      else if GZIP_THRESHOLD < length c \<and>
              str_includes (case req_header req ''accept-encoding'' of
                              None \<Rightarrow> [] | Some v \<Rightarrow> v) ''gzip''
      then Some \<lparr> status = 200,
                  headers = [''Content-Type'' \<mapsto> type_or_default f,
                             ''Cache-Control'' \<mapsto> ''public, max-age=31536000, immutable'',
                             ''ETag'' \<mapsto> generateETag p c,
                             ''Content-Encoding'' \<mapsto> ''gzip''],
                  body = BytesBody (gzipSync p c) \<rparr>
      else Some \<lparr> status = 200,
                  headers = [''Content-Type'' \<mapsto> type_or_default f,
                             ''Cache-Control'' \<mapsto> ''public, max-age=31536000, immutable'',
                             ''ETag'' \<mapsto> generateETag p c],
                  body = BytesBody c \<rparr>)"
  by (simp add: serveAsset_def memory_asset_def base_headers_def ENABLE_ETAGS_def ENABLE_GZIP_def
      gzipContent_def generateETag_nonempty Let_def)

lemma serve_disk_asset:
  "assets r = Some (disk_asset f path) \<Longrightarrow>
   serveAsset assets req r =
     (if path = [] then None
      else Some \<lparr> status = 200,
                  headers = [''Content-Type'' \<mapsto> type_or_default f,
                             ''Cache-Control'' \<mapsto> ''public, max-age=31536000, immutable''],
                  body = FileBody path \<rparr>)"
  by (simp add: serveAsset_def disk_asset_def base_headers_def Let_def)

lemma serveAsset_statuses:
  assumes "serveAsset assets req route = Some resp"
  shows "(status resp = 304 \<and> body resp = NoBody \<and> headers resp = Map.empty) \<or>
         (status resp = 200 \<and>
          headers resp ''Cache-Control'' = Some ''public, max-age=31536000, immutable'')"
  using assms
  by (auto simp: serveAsset_def base_headers_def Let_def split: option.splits if_splits)

lemma registered_served:
  assumes "startServer p = Inr s" and "\<forall>rel. path_join p CLIENT_DIR rel \<noteq> []"
    and "assets_of s r = Some a" 
  shows "\<exists>resp. serveAsset (assets_of s) req r = Some resp"
proof -
  from assms(1,3) obtain files rel where reg: "registered_entry p rel = Some a"
    by (rule served_entry)
  then show ?thesis
  proof (cases rule: registered_entry_cases)
    case (memory c)
    with assms(3) have "assets_of s r = Some (memory_asset p (bun_file_at p (path_join p CLIENT_DIR rel)) c)"
      by simp
    from serve_memory_asset[of "assets_of s" r p _ c, OF this] show ?thesis by simp
  next
    case disk
    with assms(3) have "assets_of s r = Some (disk_asset (bun_file_at p (path_join p CLIENT_DIR rel)) (path_join p CLIENT_DIR rel))"
      by simp
    from serve_disk_asset[of "assets_of s" r _ "path_join p CLIENT_DIR rel", OF this] assms(2)
    show ?thesis by simp
  qed
qed

lemma sample_app_served:
  "assets_of sample_server ''/app.js'' = Some sample_app \<and> content sample_app = Some app_js"
  by (simp add: sample_server_def sample_app_def memory_asset_def)

lemma sample_video_served:
  "assets_of sample_server ''/video.mp4'' = Some sample_video \<and> asset_path sample_video \<noteq> None"
  by (simp add: sample_server_def sample_video_def disk_asset_def)

lemma sample_join_nonempty: "\<forall>rel. path_join sample_platform CLIENT_DIR rel \<noteq> []"
  by (simp add: sample_platform_def sample_join_def CLIENT_DIR_def)

lemma sample_request_sel:
  "pathname (sample_request path inm ae) = path"
  "req_header (sample_request path inm ae) ''if-none-match'' = inm"
  "req_header (sample_request path inm ae) ''accept-encoding'' = ae"
  by (simp_all add: sample_request_def)

lemma sample_app_fields:
  "etag sample_app = Some sample_etag"
  "gzipped sample_app = Some [0x1F, 0x8B, 0x08]"
  by (simp_all add: sample_app_def memory_asset_def ENABLE_ETAGS_def ENABLE_GZIP_def generateETag_def
      sample_etag_def sample_platform_def GZIP_THRESHOLD_def app_js_def gzipContent_def)





section \<open>The claims about the server\<close>

text \<open>
  Claim C1.  (as amended) The response to a request is decided by the asset map alone.  A
  pathname with an entry whose content was loaded at startup is served from memory (a
  304 without body, the content, or its gzipped variant); a pathname with an entry
  without content is served as the file at the entry's disk path, with status 200; a
  pathname without entry gets the SPA shell: status 200, the text of index.html read at
  startup, and Content-Type text/html.  The disk is not consulted for a pathname that
  has no entry.
\<close>

theorem fetch_by_registration:
  assumes "startServer p = Inr s" and "\<forall>rel. path_join p CLIENT_DIR rel \<noteq> []"
  shows "file_text (bun_file_at p (path_join p CLIENT_DIR ''index.html'')) = Inr (indexHtml s) \<and>
         (case assets_of s (pathname req) of
            None \<Rightarrow>
              fetch s req = \<lparr> status = 200, headers = [''Content-Type'' \<mapsto> ''text/html''],
                              body = TextBody (indexHtml s) \<rparr>
          | Some a \<Rightarrow>
              serveAsset (assets_of s) req (pathname req) = Some (fetch s req) \<and>
              (case content a of
                 Some c \<Rightarrow>
                   asset_path a = None \<and>
                   body (fetch s req) \<in> {NoBody, BytesBody c, BytesBody (gzipSync p c)}
               | None \<Rightarrow>
                   asset_path a \<noteq> None \<and>
                   fetch s req = \<lparr> status = 200, headers = base_headers a,
                                   body = FileBody (the (asset_path a)) \<rparr>))"
proof -
  from assms(1) have idx:
    "file_text (bun_file_at p (path_join p CLIENT_DIR ''index.html'')) = Inr (indexHtml s)"
    by (rule startServer_Inr)
  show ?thesis
  proof (cases "assets_of s (pathname req)")
    case None
    then show ?thesis using idx by (simp add: fetch_def serveAsset_def spa_shell_def)
  next
    case (Some a)
    from assms(1) Some obtain files rel where reg: "registered_entry p rel = Some a"
      by (rule served_entry)
    then show ?thesis
    proof (cases rule: registered_entry_cases)
      case (memory c)
      with Some have m: "assets_of s (pathname req)
          = Some (memory_asset p (bun_file_at p (path_join p CLIENT_DIR rel)) c)" by simp
      note sv = serve_memory_asset[of "assets_of s" "pathname req" p _ c, OF m]
      have c: "content a = Some c" "asset_path a = None"
        by (simp_all add: memory(5) memory_asset_def)
      have "serveAsset (assets_of s) req (pathname req) = Some (fetch s req)"
        by (simp add: fetch_def sv)
      moreover have "body (fetch s req) \<in> {NoBody, BytesBody c, BytesBody (gzipSync p c)}"
        by (simp add: fetch_def sv)
      ultimately show ?thesis using idx Some c by simp
    next
      case disk
      let ?path = "path_join p CLIENT_DIR rel"
      from Some disk have m: "assets_of s (pathname req)
          = Some (disk_asset (bun_file_at p ?path) ?path)" by simp
      have ne: "?path \<noteq> []" using assms(2) by simp
      note sv = serve_disk_asset[of "assets_of s" "pathname req" _ ?path, OF m]
      have c: "content a = None" "asset_path a = Some ?path"
        by (simp_all add: disk(3) disk_asset_def)
      have "serveAsset (assets_of s) req (pathname req) = Some (fetch s req)"
        by (simp add: fetch_def sv ne)
      moreover have "fetch s req = \<lparr> status = 200, headers = base_headers a,
                                   body = FileBody ?path \<rparr>"
        by (simp add: fetch_def sv ne disk(3) disk_asset_def base_headers_def)
      ultimately show ?thesis using idx Some c by simp
    qed
  qed
qed

theorem fetch_by_registration_witness:
  "startServer sample_platform = Inr sample_server \<and>
   (\<forall>rel. path_join sample_platform CLIENT_DIR rel \<noteq> []) \<and>
   assets_of sample_server ''/blog/hello'' = None \<and>
   fetch sample_server (sample_request ''/blog/hello'' None None)
     = \<lparr> status = 200, headers = [''Content-Type'' \<mapsto> ''text/html''],
         body = TextBody ''<html></html>'' \<rparr> \<and>
   assets_of sample_server ''/video.mp4'' = Some sample_video \<and>
   fetch sample_server (sample_request ''/video.mp4'' None None)
     = \<lparr> status = 200, headers = base_headers sample_video, body = FileBody ''video.mp4'' \<rparr>"
proof -
  note inst = fetch_by_registration[OF sample_server_started sample_join_nonempty]
  have none: "assets_of sample_server ''/blog/hello'' = None"
    by (simp add: sample_server_def)
  have html: "indexHtml sample_server = ''<html></html>''"
    by (simp add: sample_server_def)
  have vid: "content sample_video = None" "asset_path sample_video = Some ''video.mp4''"
    by (simp_all add: sample_video_def disk_asset_def)
  from inst[of "sample_request ''/blog/hello'' None None"] none html
  have a: "fetch sample_server (sample_request ''/blog/hello'' None None)
     = \<lparr> status = 200, headers = [''Content-Type'' \<mapsto> ''text/html''],
         body = TextBody ''<html></html>'' \<rparr>"
    by (simp add: sample_request_sel)
  from inst[of "sample_request ''/video.mp4'' None None"] sample_video_served vid
  have b: "fetch sample_server (sample_request ''/video.mp4'' None None)
     = \<lparr> status = 200, headers = base_headers sample_video, body = FileBody ''video.mp4'' \<rparr>"
    by (simp add: sample_request_sel)
  from a b none sample_video_served sample_server_started sample_join_nonempty
  show ?thesis by simp
qed

text \<open>
  The claim as written lets a pathname that misses the map be read from disk.  The empty
  file \<^verbatim>\<open>empty.txt\<close> exists on the sample disk and has no entry; the request for it
  is answered with the shell page.
\<close>

theorem fetch_disk_fallback_counterexample:
  "startServer sample_platform = Inr sample_server \<and>
   file_exists (bun_file_at sample_platform (path_join sample_platform CLIENT_DIR ''empty.txt'')) \<and>
   assets_of sample_server ''/empty.txt'' = None \<and>
   fetch sample_server (sample_request ''/empty.txt'' None None)
     = \<lparr> status = 200, headers = [''Content-Type'' \<mapsto> ''text/html''],
         body = TextBody ''<html></html>'' \<rparr>"
  using sample_server_started
  by (simp add: sample_platform_def sample_join_def sample_disk_def regular_file_def CLIENT_DIR_def
      sample_server_def fetch_def serveAsset_def spa_shell_def sample_request_def)




text \<open>
  Claim C3.  An asset loaded into memory carries as ETag the MD5 hex digest of its
  content between double quotes.  A request for it whose If-None-Match header equals
  that ETag is answered with status 304 and no body; every other request for it is
  answered with status 200 and the ETag header set to that value.
\<close>

theorem etag_conditional_requests:
  assumes "startServer p = Inr s" and "assets_of s r = Some a" and "content a = Some c"
  shows "etag a = Some (dquote # md5_hex p c @ [dquote]) \<and>
         (\<forall>req. pathname req = r \<longrightarrow>
            (if req_header req ''if-none-match'' = etag a
             then status (fetch s req) = 304 \<and> body (fetch s req) = NoBody
             else status (fetch s req) = 200 \<and> headers (fetch s req) ''ETag'' = etag a))"
proof -
  from memory_entry[OF assms] obtain f where a: "a = memory_asset p f c" ..
  have e: "etag a = Some (generateETag p c)"
    by (simp add: a memory_asset_def ENABLE_ETAGS_def)
  from assms(2) a have m: "assets_of s r = Some (memory_asset p f c)" by simp
  show ?thesis
    by (simp add: e fetch_def serve_memory_asset[of "assets_of s" r p f c, OF m])
       (simp add: generateETag_def)
qed

theorem etag_conditional_requests_witness:
  "startServer sample_platform = Inr sample_server \<and>
   assets_of sample_server ''/app.js'' = Some sample_app \<and>
   content sample_app = Some app_js \<and>
   etag sample_app = Some sample_etag \<and>
   status (fetch sample_server (sample_request ''/app.js'' (Some sample_etag) None)) = 304 \<and>
   body (fetch sample_server (sample_request ''/app.js'' (Some sample_etag) None)) = NoBody \<and>
   status (fetch sample_server (sample_request ''/app.js'' None None)) = 200 \<and>
   headers (fetch sample_server (sample_request ''/app.js'' None None)) ''ETag''
     = Some sample_etag"
proof -
  have md5: "md5_hex sample_platform app_js = ''5d41402abc4b2a76b9719d911017c592''"
    by (simp add: sample_platform_def)
  note inst = etag_conditional_requests[OF sample_server_started, of "''/app.js''" sample_app app_js]
  have e: "etag sample_app = Some sample_etag"
    using inst sample_app_served by (simp add: md5 sample_etag_def)
  have hit: "req_header (sample_request ''/app.js'' (Some sample_etag) None) ''if-none-match''
               = etag sample_app"
    by (simp add: e sample_request_def)
  have miss: "req_header (sample_request ''/app.js'' None None) ''if-none-match''
               \<noteq> etag sample_app"
    by (simp add: e sample_request_def)
  have p1: "pathname (sample_request ''/app.js'' (Some sample_etag) None) = ''/app.js''"
    and p2: "pathname (sample_request ''/app.js'' None None) = ''/app.js''"
    by (simp_all add: sample_request_def)
  from inst sample_app_served
  have all: "\<forall>req. pathname req = ''/app.js'' \<longrightarrow>
            (if req_header req ''if-none-match'' = etag sample_app
             then status (fetch sample_server req) = 304 \<and> body (fetch sample_server req) = NoBody
             else status (fetch sample_server req) = 200 \<and>
                  headers (fetch sample_server req) ''ETag'' = etag sample_app)"
    by simp
  from all p1 hit have r1: "status (fetch sample_server (sample_request ''/app.js'' (Some sample_etag) None)) = 304
      \<and> body (fetch sample_server (sample_request ''/app.js'' (Some sample_etag) None)) = NoBody"
    by presburger
  from all p2 miss have r2: "status (fetch sample_server (sample_request ''/app.js'' None None)) = 200
      \<and> headers (fetch sample_server (sample_request ''/app.js'' None None)) ''ETag'' = etag sample_app"
    by presburger
  from r1 r2 e sample_app_served sample_server_started show ?thesis by simp
qed

text \<open>
  Claim C4.  (as amended) An asset loaded into memory has a gzipped variant exactly when
  its content is longer than 1024 bytes.  A request for it that is not answered 304
  (its If-None-Match header is not the asset's ETag) gets the gzipped body and
  Content-Encoding gzip exactly when the variant exists and the Accept-Encoding header
  contains gzip; otherwise it gets the content itself and no Content-Encoding header.
\<close>

theorem gzip_negotiation:
  assumes "startServer p = Inr s" and "assets_of s r = Some a" and "content a = Some c"
  shows "(gzipped a \<noteq> None \<longleftrightarrow> 1024 < length c) \<and>
         (\<forall>req. pathname req = r \<longrightarrow> req_header req ''if-none-match'' \<noteq> etag a \<longrightarrow>
            (if gzipped a \<noteq> None \<and>
                str_includes (case req_header req ''accept-encoding'' of
                                None \<Rightarrow> [] | Some v \<Rightarrow> v) ''gzip''
             then gzipped a = Some (gzipSync p c) \<and>
                  body (fetch s req) = BytesBody (gzipSync p c) \<and>
                  headers (fetch s req) ''Content-Encoding'' = Some ''gzip''
             else body (fetch s req) = BytesBody c \<and>
                  headers (fetch s req) ''Content-Encoding'' = None))"
proof -
  from memory_entry[OF assms] obtain f where a: "a = memory_asset p f c" ..
  have e: "etag a = Some (generateETag p c)"
    by (simp add: a memory_asset_def ENABLE_ETAGS_def)
  have g: "gzipped a = (if 1024 < length c then Some (gzipSync p c) else None)"
    by (simp add: a memory_asset_def ENABLE_GZIP_def GZIP_THRESHOLD_def gzipContent_def)
  from assms(2) a have m: "assets_of s r = Some (memory_asset p f c)" by simp
  show ?thesis
    by (simp add: e g fetch_def serve_memory_asset[of "assets_of s" r p f c, OF m]
        GZIP_THRESHOLD_def)
qed

theorem gzip_negotiation_witness:
  "startServer sample_platform = Inr sample_server \<and>
   assets_of sample_server ''/app.js'' = Some sample_app \<and>
   content sample_app = Some app_js \<and>
   1024 < length app_js \<and>
   gzipped sample_app = Some (gzipSync sample_platform app_js) \<and>
   body (fetch sample_server (sample_request ''/app.js'' None (Some ''gzip, deflate, br'')))
     = BytesBody (gzipSync sample_platform app_js) \<and>
   headers (fetch sample_server (sample_request ''/app.js'' None (Some ''gzip, deflate, br'')))
     ''Content-Encoding'' = Some ''gzip'' \<and>
   body (fetch sample_server (sample_request ''/app.js'' None (Some ''br''))) = BytesBody app_js \<and>
   headers (fetch sample_server (sample_request ''/app.js'' None (Some ''br'')))
     ''Content-Encoding'' = None"
proof -
  note inst = gzip_negotiation[OF sample_server_started, of "''/app.js''" sample_app app_js]
  have len: "1024 < length app_js" by (simp add: app_js_def)
  from inst sample_app_served
  have all: "\<forall>req. pathname req = ''/app.js'' \<longrightarrow>
            req_header req ''if-none-match'' \<noteq> etag sample_app \<longrightarrow>
            (if gzipped sample_app \<noteq> None \<and>
                str_includes (case req_header req ''accept-encoding'' of
                                None \<Rightarrow> [] | Some v \<Rightarrow> v) ''gzip''
             then gzipped sample_app = Some (gzipSync sample_platform app_js) \<and>
                  body (fetch sample_server req) = BytesBody (gzipSync sample_platform app_js) \<and>
                  headers (fetch sample_server req) ''Content-Encoding'' = Some ''gzip''
             else body (fetch sample_server req) = BytesBody app_js \<and>
                  headers (fetch sample_server req) ''Content-Encoding'' = None)"
    by simp
  from all[rule_format, of "sample_request ''/app.js'' None (Some ''gzip, deflate, br'')"]
  have a: "gzipped sample_app = Some (gzipSync sample_platform app_js) \<and>
       body (fetch sample_server (sample_request ''/app.js'' None (Some ''gzip, deflate, br'')))
         = BytesBody (gzipSync sample_platform app_js) \<and>
       headers (fetch sample_server (sample_request ''/app.js'' None (Some ''gzip, deflate, br'')))
         ''Content-Encoding'' = Some ''gzip''"
    by (simp add: sample_request_sel sample_app_fields)
  from all[rule_format, of "sample_request ''/app.js'' None (Some ''br'')"]
  have b: "body (fetch sample_server (sample_request ''/app.js'' None (Some ''br''))) = BytesBody app_js \<and>
       headers (fetch sample_server (sample_request ''/app.js'' None (Some ''br'')))
         ''Content-Encoding'' = None"
    by (simp add: sample_request_sel sample_app_fields)
  from a b len sample_app_served sample_server_started show ?thesis by simp
qed

text \<open>
  The claim as written covers every request.  A request whose If-None-Match header is the
  ETag is answered 304 with no body and no header, whether it accepts gzip or not.
\<close>

theorem gzip_not_modified_counterexample:
  "assets_of sample_server ''/app.js'' = Some sample_app \<and>
   content sample_app = Some app_js \<and>
   gzipped sample_app \<noteq> None \<and>
   str_includes ''gzip'' ''gzip'' \<and>
   fetch sample_server (sample_request ''/app.js'' (Some sample_etag) (Some ''gzip''))
     = \<lparr> status = 304, headers = Map.empty, body = NoBody \<rparr> \<and>
   \<not> str_includes [] ''gzip'' \<and>
   fetch sample_server (sample_request ''/app.js'' (Some sample_etag) None)
     = \<lparr> status = 304, headers = Map.empty, body = NoBody \<rparr>"
proof -
  have m: "assets_of sample_server ''/app.js''
             = Some (memory_asset sample_platform (sample_disk ''app.js'') app_js)"
    by (simp add: sample_server_def sample_app_def)
  have e: "generateETag sample_platform app_js = sample_etag"
    by (simp add: generateETag_def sample_etag_def sample_platform_def)
  note sv = serve_memory_asset[of "assets_of sample_server" "''/app.js''" sample_platform _ app_js, OF m]
  show ?thesis using sample_app_served
    by (simp add: fetch_def sv e sample_request_sel sample_app_fields)
qed

text \<open>
  Claim C7.  If listing the client directory throws, or reading a listed file that is to
  be held in memory throws, or reading index.html throws, the process exits with code 1
  and answers no request.
\<close>

theorem startup_failure_exits:
  assumes "readdir p CLIENT_DIR = Inl e \<or>
           (\<exists>files rel. readdir p CLIENT_DIR = Inr files \<and> rel \<in> set files \<and>
              file_exists (bun_file_at p (path_join p CLIENT_DIR rel)) \<and>
              0 < file_size (bun_file_at p (path_join p CLIENT_DIR rel)) \<and>
              file_size (bun_file_at p (path_join p CLIENT_DIR rel)) \<le> MAX_ASSET_SIZE \<and>
              arrayBuffer (bun_file_at p (path_join p CLIENT_DIR rel)) = Inl e) \<or>
           file_text (bun_file_at p (path_join p CLIENT_DIR ''index.html'')) = Inl e"
  shows "main p = Exited 1 \<and> (\<forall>req. answer (main p) req = None)"
proof -
  have "\<exists>e'. startServer p = Inl e'"
    using assms
  proof (elim disjE exE conjE)
    assume "readdir p CLIENT_DIR = Inl e"
    then show ?thesis by (simp add: startServer_def loadStaticAssets_def)
  next
    fix files rel
    assume f: "readdir p CLIENT_DIR = Inr files" and "rel \<in> set files"
      "file_exists (bun_file_at p (path_join p CLIENT_DIR rel))"
      "0 < file_size (bun_file_at p (path_join p CLIENT_DIR rel))"
      "file_size (bun_file_at p (path_join p CLIENT_DIR rel)) \<le> MAX_ASSET_SIZE"
      "arrayBuffer (bun_file_at p (path_join p CLIENT_DIR rel)) = Inl e"
    from load_files_fails[OF this(2-6)] obtain e' where "load_files p files Map.empty = Inl e'"
      by blast
    with f show ?thesis by (simp add: startServer_def loadStaticAssets_def)
  next
    assume "file_text (bun_file_at p (path_join p CLIENT_DIR ''index.html'')) = Inl e"
    then show ?thesis by (simp add: startServer_def split: sum.splits)
  qed
  then show ?thesis by (auto simp: main_def)
qed

theorem startup_failure_exits_witness:
  "readdir unreadable_listing CLIENT_DIR = Inl (IOError ''ENOENT'') \<and>
   main unreadable_listing = Exited 1 \<and>
   answer (main unreadable_listing) (sample_request ''/app.js'' None None) = None \<and>
   arrayBuffer (bun_file_at unreadable_script (path_join unreadable_script CLIENT_DIR ''app.js''))
     = Inl (IOError ''EACCES'') \<and>
   main unreadable_script = Exited 1 \<and>
   file_text (bun_file_at missing_index (path_join missing_index CLIENT_DIR ''index.html''))
     = Inl (IOError ''ENOENT'') \<and>
   main missing_index = Exited 1 \<and>
   answer (main missing_index) (sample_request ''/'' None None) = None"
proof -
  have a: "readdir unreadable_listing CLIENT_DIR = Inl (IOError ''ENOENT'')"
    by (simp add: unreadable_listing_def)
  have b: "readdir unreadable_script CLIENT_DIR
             = Inr [''index.html'', ''app.js'', ''video.mp4'', ''empty.txt'']"
    "file_exists (bun_file_at unreadable_script (path_join unreadable_script CLIENT_DIR ''app.js''))"
    "0 < file_size (bun_file_at unreadable_script (path_join unreadable_script CLIENT_DIR ''app.js''))"
    "file_size (bun_file_at unreadable_script (path_join unreadable_script CLIENT_DIR ''app.js''))
       \<le> MAX_ASSET_SIZE"
    "arrayBuffer (bun_file_at unreadable_script (path_join unreadable_script CLIENT_DIR ''app.js''))
       = Inl (IOError ''EACCES'')"
    by (simp_all add: unreadable_script_def sample_platform_def sample_join_def sample_disk_def
        regular_file_def CLIENT_DIR_def MAX_ASSET_SIZE_def)
  have c: "file_text (bun_file_at missing_index (path_join missing_index CLIENT_DIR ''index.html''))
     = Inl (IOError ''ENOENT'')"
    by (simp add: missing_index_def sample_platform_def sample_join_def no_file_def CLIENT_DIR_def)
  from startup_failure_exits[of unreadable_listing "IOError ''ENOENT''"] a
  have r1: "main unreadable_listing = Exited 1 \<and>
            (\<forall>req. answer (main unreadable_listing) req = None)" by simp
  have "\<exists>files rel. readdir unreadable_script CLIENT_DIR = Inr files \<and> rel \<in> set files \<and>
      file_exists (bun_file_at unreadable_script (path_join unreadable_script CLIENT_DIR rel)) \<and>
      0 < file_size (bun_file_at unreadable_script (path_join unreadable_script CLIENT_DIR rel)) \<and>
      file_size (bun_file_at unreadable_script (path_join unreadable_script CLIENT_DIR rel))
        \<le> MAX_ASSET_SIZE \<and>
      arrayBuffer (bun_file_at unreadable_script (path_join unreadable_script CLIENT_DIR rel))
        = Inl (IOError ''EACCES'')"
    using b by (intro exI[of _ "[''index.html'', ''app.js'', ''video.mp4'', ''empty.txt'']"]
                      exI[of _ "''app.js''"]) simp
  with startup_failure_exits[of unreadable_script "IOError ''EACCES''"]
  have r2: "main unreadable_script = Exited 1" by blast
  from startup_failure_exits[of missing_index "IOError ''ENOENT''"] c
  have r3: "main missing_index = Exited 1 \<and> (\<forall>req. answer (main missing_index) req = None)"
    by simp
  from a b(5) c r1 r2 r3 show ?thesis by simp
qed

text \<open>
  Claim C8.  An entry with a disk path comes from a listed file larger than
  5 * 1024 * 1024 bytes, and a response for it never has an ETag or a Content-Encoding
  header and never has status 304, whatever the request's headers are.
\<close>

theorem disk_tier_plain:
  assumes "startServer p = Inr s" and "assets_of s r = Some a" and "asset_path a \<noteq> None"
  shows "(\<exists>files rel. readdir p CLIENT_DIR = Inr files \<and> rel \<in> set files \<and> route_of rel = r \<and>
            5 * 1024 * 1024 < file_size (bun_file_at p (path_join p CLIENT_DIR rel))) \<and>
         (\<forall>req. pathname req = r \<longrightarrow>
            headers (fetch s req) ''ETag'' = None \<and>
            headers (fetch s req) ''Content-Encoding'' = None \<and>
            status (fetch s req) \<noteq> 304)"
proof -
  from assms(1,2) obtain files rel where
    l: "readdir p CLIENT_DIR = Inr files" "rel \<in> set files" "route_of rel = r"
    and reg: "registered_entry p rel = Some a"
    by (rule served_entry)
  from reg show ?thesis
  proof (cases rule: registered_entry_cases)
    case (memory c)
    with assms(3) show ?thesis by (simp add: memory_asset_def)
  next
    case disk
    let ?f = "bun_file_at p (path_join p CLIENT_DIR rel)"
    from assms(2) disk(3)
    have m: "assets_of s r = Some (disk_asset ?f (path_join p CLIENT_DIR rel))" by simp
    have "\<forall>req. pathname req = r \<longrightarrow>
            headers (fetch s req) ''ETag'' = None \<and>
            headers (fetch s req) ''Content-Encoding'' = None \<and>
            status (fetch s req) \<noteq> 304"
      by (simp add: fetch_def serve_disk_asset[of "assets_of s" r ?f "path_join p CLIENT_DIR rel", OF m]
          spa_shell_def)
    moreover from l disk(2)
    have "\<exists>files rel. readdir p CLIENT_DIR = Inr files \<and> rel \<in> set files \<and> route_of rel = r \<and>
            5 * 1024 * 1024 < file_size (bun_file_at p (path_join p CLIENT_DIR rel))"
      by (auto simp: MAX_ASSET_SIZE_def)
    ultimately show ?thesis by blast
  qed
qed

theorem disk_tier_plain_witness:
  "startServer sample_platform = Inr sample_server \<and>
   assets_of sample_server ''/video.mp4'' = Some sample_video \<and>
   asset_path sample_video \<noteq> None \<and>
   headers (fetch sample_server (sample_request ''/video.mp4'' (Some sample_etag) (Some ''gzip'')))
     ''ETag'' = None \<and>
   headers (fetch sample_server (sample_request ''/video.mp4'' (Some sample_etag) (Some ''gzip'')))
     ''Content-Encoding'' = None \<and>
   status (fetch sample_server (sample_request ''/video.mp4'' (Some sample_etag) (Some ''gzip'')))
     \<noteq> 304"
  using disk_tier_plain[OF sample_server_started, of "''/video.mp4''" sample_video]
    sample_video_served sample_server_started
  by (simp add: sample_request_sel)

text \<open>
  Claim C9.  Every response of \<^verbatim>\<open>serveAsset\<close> with status 200 has the header
  Cache-Control: public, max-age=31536000, immutable, and every one with status 304 has
  no body and no header.  On a started server whose platform joins paths to non-empty
  strings, the response for a registered pathname is the one \<^verbatim>\<open>serveAsset\<close> returns.
\<close>

theorem cache_control_and_not_modified:
  "(\<forall>assets req route resp. serveAsset assets req route = Some resp \<longrightarrow>
       (status resp = 200 \<longrightarrow>
          headers resp ''Cache-Control'' = Some ''public, max-age=31536000, immutable'') \<and>
       (status resp = 304 \<longrightarrow> body resp = NoBody \<and> headers resp = Map.empty)) \<and>
   (startServer p = Inr s \<longrightarrow> (\<forall>rel. path_join p CLIENT_DIR rel \<noteq> []) \<longrightarrow>
      (\<forall>req. assets_of s (pathname req) \<noteq> None \<longrightarrow>
         serveAsset (assets_of s) req (pathname req) = Some (fetch s req) \<and>
         (status (fetch s req) = 200 \<longrightarrow>
            headers (fetch s req) ''Cache-Control''
              = Some ''public, max-age=31536000, immutable'')))"
proof -
  have a: "\<forall>assets req route resp. serveAsset assets req route = Some resp \<longrightarrow>
       (status resp = 200 \<longrightarrow>
          headers resp ''Cache-Control'' = Some ''public, max-age=31536000, immutable'') \<and>
       (status resp = 304 \<longrightarrow> body resp = NoBody \<and> headers resp = Map.empty)"
    using serveAsset_statuses by fastforce
  have b: "serveAsset (assets_of s) req (pathname req) = Some (fetch s req) \<and>
         (status (fetch s req) = 200 \<longrightarrow>
            headers (fetch s req) ''Cache-Control''
              = Some ''public, max-age=31536000, immutable'')"
    if "startServer p = Inr s" "\<forall>rel. path_join p CLIENT_DIR rel \<noteq> []"
       "assets_of s (pathname req) \<noteq> None" for req
  proof -
    from that(3) obtain a where "assets_of s (pathname req) = Some a" by blast
    from registered_served[OF that(1,2) this] obtain resp
      where r: "serveAsset (assets_of s) req (pathname req) = Some resp" by blast
    then have "fetch s req = resp" by (simp add: fetch_def)
    with r serveAsset_statuses[OF r] show ?thesis by auto
  qed
  from a b show ?thesis by blast
qed

theorem cache_control_and_not_modified_witness:
  "startServer sample_platform = Inr sample_server \<and>
   (\<forall>rel. path_join sample_platform CLIENT_DIR rel \<noteq> []) \<and>
   assets_of sample_server (pathname (sample_request ''/video.mp4'' None None)) \<noteq> None \<and>
   serveAsset (assets_of sample_server) (sample_request ''/video.mp4'' None None) ''/video.mp4''
     = Some (fetch sample_server (sample_request ''/video.mp4'' None None)) \<and>
   status (fetch sample_server (sample_request ''/video.mp4'' None None)) = 200 \<and>
   headers (fetch sample_server (sample_request ''/video.mp4'' None None)) ''Cache-Control''
     = Some ''public, max-age=31536000, immutable''"
proof -
  have reg: "assets_of sample_server (pathname (sample_request ''/video.mp4'' None None)) \<noteq> None"
    using sample_video_served by (simp add: sample_request_sel)
  have st: "status (fetch sample_server (sample_request ''/video.mp4'' None None)) = 200"
    using sample_video_served
    by (simp add: fetch_def sample_video_def sample_request_sel
        serve_disk_asset[of "assets_of sample_server" "''/video.mp4''"])
  from cache_control_and_not_modified[of sample_platform sample_server]
    sample_server_started sample_join_nonempty
  have "\<forall>req. assets_of sample_server (pathname req) \<noteq> None \<longrightarrow>
         serveAsset (assets_of sample_server) req (pathname req) = Some (fetch sample_server req) \<and>
         (status (fetch sample_server req) = 200 \<longrightarrow>
            headers (fetch sample_server req) ''Cache-Control''
              = Some ''public, max-age=31536000, immutable'')"
    by blast
  from this[rule_format, OF reg] st reg sample_server_started sample_join_nonempty
  show ?thesis by (simp add: sample_request_sel)
qed

section \<open>The slug\<close>

lemma hyphen_not_alnum: "\<not> slug_alnum hyphen"
  by (simp add: slug_alnum_def hyphen_def)

lemma replace_runs_chars: "\<forall>c \<in> set (replace_runs s). slug_char c"
  by (induction s rule: replace_runs.induct) (auto simp: slug_char_def)

lemma replace_runs_head:
  "s \<noteq> [] \<Longrightarrow> slug_alnum (hd s) \<Longrightarrow> replace_runs s \<noteq> [] \<and> hd (replace_runs s) = hd s"
  by (cases s) auto

lemma dropWhile_head: "dropWhile P s \<noteq> [] \<Longrightarrow> \<not> P (hd (dropWhile P s))"
  by (metis hd_dropWhile)

lemma double_hyphen_Cons:
  "double_hyphen (a # s) = ((a = hyphen \<and> s \<noteq> [] \<and> hd s = hyphen) \<or> double_hyphen s)"
  by (cases s) auto

lemma replace_runs_no_double: "\<not> double_hyphen (replace_runs s)"
proof (induction s rule: replace_runs.induct)
  case 1
  then show ?case by simp
next
  case (2 c cs)
  show ?case
  proof (cases "slug_alnum c")
    case True
    with 2 hyphen_not_alnum show ?thesis by (auto simp: double_hyphen_Cons)
  next
    case False
    let ?d = "dropWhile (\<lambda>x. \<not> slug_alnum x) cs"
    have "replace_runs ?d = [] \<or> hd (replace_runs ?d) \<noteq> hyphen"
    proof (cases "?d = []")
      case True
      then show ?thesis by (metis replace_runs.simps(1))
    next
      case False
      then have "slug_alnum (hd ?d)" using dropWhile_head[of "\<lambda>x. \<not> slug_alnum x" cs] by simp
      with False replace_runs_head[of ?d] hyphen_not_alnum show ?thesis by auto
    qed
    with False 2 show ?thesis by (auto simp: double_hyphen_Cons)
  qed
qed

lemma replace_runs_fixed:
  "\<forall>c \<in> set s. slug_char c \<Longrightarrow> \<not> double_hyphen s \<Longrightarrow> s \<noteq> [] \<longrightarrow> last s \<noteq> hyphen \<Longrightarrow> replace_runs s = s"
proof (induction s rule: replace_runs.induct)
  case 1
  then show ?case by simp
next
  case (2 c cs)
  show ?case
  proof (cases "slug_alnum c")
    case True
    with 2 show ?thesis by (auto simp: double_hyphen_Cons split: if_splits)
  next
    case False
    with "2.prems"(1) have c: "c = hyphen" by (simp add: slug_char_def)
    with "2.prems"(3) have ne: "cs \<noteq> []" by auto
    with "2.prems"(2) c have h: "hd cs \<noteq> hyphen" by (simp add: double_hyphen_Cons)
    with ne "2.prems"(1) have "slug_alnum (hd cs)" by (cases cs) (auto simp: slug_char_def)
    with ne have d: "dropWhile (\<lambda>x. \<not> slug_alnum x) cs = cs" by (cases cs) auto
    from "2.IH"(2)[OF False] "2.prems" d ne have "replace_runs cs = cs"
      by (auto simp: double_hyphen_Cons)
    with False c d show ?thesis by simp
  qed
qed


lemma double_hyphen_iff: "double_hyphen s = (\<exists>xs ys. s = xs @ hyphen # hyphen # ys)"
proof (induction s rule: double_hyphen.induct)
  case (1 a b cs)
  show ?case
  proof
    assume "double_hyphen (a # b # cs)"
    then consider "a = hyphen \<and> b = hyphen" | "double_hyphen (b # cs)" by auto
    then show "\<exists>xs ys. a # b # cs = xs @ hyphen # hyphen # ys"
    proof cases
      case 1
      then have "a # b # cs = [] @ hyphen # hyphen # cs" by simp
      then show ?thesis by blast
    next
      case 2
      with "1.IH" obtain xs ys where "b # cs = xs @ hyphen # hyphen # ys" by blast
      then have "a # b # cs = (a # xs) @ hyphen # hyphen # ys" by simp
      then show ?thesis by blast
    qed
  next
    assume "\<exists>xs ys. a # b # cs = xs @ hyphen # hyphen # ys"
    then obtain xs ys where e: "a # b # cs = xs @ hyphen # hyphen # ys" by blast
    show "double_hyphen (a # b # cs)"
    proof (cases xs)
      case Nil
      with e show ?thesis by simp
    next
      case (Cons x xs')
      with e have "b # cs = xs' @ hyphen # hyphen # ys" by simp
      with "1.IH" have "double_hyphen (b # cs)" by blast
      then show ?thesis by simp
    qed
  qed
qed (simp_all add: Cons_eq_append_conv)

lemma double_hyphen_tl: "double_hyphen cs \<Longrightarrow> double_hyphen (c # cs)"
  by (cases cs) auto

lemma double_hyphen_butlast: "double_hyphen (butlast s) \<Longrightarrow> double_hyphen s"
proof -
  assume "double_hyphen (butlast s)"
  then obtain xs ys where b: "butlast s = xs @ hyphen # hyphen # ys"
    by (auto simp: double_hyphen_iff)
  then have "s \<noteq> []" by auto
  then have "s = butlast s @ [last s]" by simp
  with b have "s = xs @ hyphen # hyphen # (ys @ [last s])" by simp
  then show ?thesis unfolding double_hyphen_iff by blast
qed

lemma last_butlast_hyphen:
  assumes "\<not> double_hyphen s" and "s \<noteq> []" and "last s = hyphen" and "butlast s \<noteq> []"
  shows "last (butlast s) \<noteq> hyphen"
proof
  assume h: "last (butlast s) = hyphen"
  from assms(4) have "butlast s = butlast (butlast s) @ [last (butlast s)]" by simp
  moreover from assms(2) have "s = butlast s @ [last s]" by simp
  ultimately have "s = butlast (butlast s) @ hyphen # hyphen # []"
    using h assms(3) by (metis append.assoc append_Cons append_Nil)
  with assms(1) show False unfolding double_hyphen_iff by blast
qed

lemma hd_butlast_same: "butlast s \<noteq> [] \<Longrightarrow> hd (butlast s) = hd s"
  by (cases s) (auto split: if_splits)

lemma drop_leading_props:
  assumes "\<not> double_hyphen s"
  shows "set (drop_leading s) \<subseteq> set s" and "\<not> double_hyphen (drop_leading s)"
    and "drop_leading s \<noteq> [] \<longrightarrow> hd (drop_leading s) \<noteq> hyphen"
  using assms
  by (auto simp: drop_leading_def double_hyphen_Cons split: list.splits)

lemma strip_edge_hyphens_props:
  assumes "\<not> double_hyphen s"
  shows "set (strip_edge_hyphens s) \<subseteq> set s"
    and "\<not> double_hyphen (strip_edge_hyphens s)"
    and "strip_edge_hyphens s \<noteq> [] \<longrightarrow>
           hd (strip_edge_hyphens s) \<noteq> hyphen \<and> last (strip_edge_hyphens s) \<noteq> hyphen"
proof -
  let ?s1 = "drop_leading s"
  have st: "strip_edge_hyphens s = (if ?s1 \<noteq> [] \<and> last ?s1 = hyphen then butlast ?s1 else ?s1)"
    by (simp add: strip_edge_hyphens_def drop_leading_def Let_def)
  note dl = drop_leading_props[OF assms]
  show "set (strip_edge_hyphens s) \<subseteq> set s"
    using dl(1) by (auto simp: st dest: in_set_butlastD)
  show "\<not> double_hyphen (strip_edge_hyphens s)"
    using dl(2) double_hyphen_butlast by (auto simp: st)
  show "strip_edge_hyphens s \<noteq> [] \<longrightarrow>
           hd (strip_edge_hyphens s) \<noteq> hyphen \<and> last (strip_edge_hyphens s) \<noteq> hyphen"
    using dl(2,3) last_butlast_hyphen[of ?s1] hd_butlast_same[of ?s1]
    by (auto simp: st)
qed

lemma strip_edge_hyphens_fixed:
  "s \<noteq> [] \<longrightarrow> hd s \<noteq> hyphen \<and> last s \<noteq> hyphen \<Longrightarrow> strip_edge_hyphens s = s"
  by (cases s) (auto simp: strip_edge_hyphens_def)

lemma ascii_lower_fixes_slugs:
  "\<forall>s. (\<forall>c \<in> set s. slug_alnum c \<or> c = hyphen) \<longrightarrow> ascii_lower s = s"
proof (intro allI impI)
  fix s :: js_string
  assume a: "\<forall>c \<in> set s. slug_alnum c \<or> c = hyphen"
  have "\<not> (0x41 \<le> c \<and> c \<le> 0x5A)" if "slug_alnum c \<or> c = hyphen" for c :: "16 word"
    using that by (auto simp: slug_alnum_def hyphen_def word_le_nat_alt)
  with a show "ascii_lower s = s"
    unfolding ascii_lower_def by (intro map_idI) auto
qed

lemma sample_slug_generated: "generateSlug ascii_lower sample_title = sample_slug"
  by (simp add: generateSlug_def ascii_lower_def js_def strip_edge_hyphens_def slug_alnum_def
      hyphen_def sample_title_def sample_slug_def)

text \<open>
  Claim C10.  Whatever the title, the slug has only the code units of a-z, 0-9 and the
  hyphen, has no two hyphens in a row, and neither begins nor ends with a hyphen; and
  the slug of a slug is the slug itself.  \<^verbatim>\<open>toLowerCase\<close> is any function that
  leaves a string of such code units as it is, which the engine's does.
\<close>

theorem generateSlug_shape:
  assumes "\<forall>s. (\<forall>c \<in> set s. slug_alnum c \<or> c = hyphen) \<longrightarrow> toLowerCase s = s"
  shows "(\<forall>c \<in> set (generateSlug toLowerCase t). slug_alnum c \<or> c = hyphen) \<and>
         \<not> double_hyphen (generateSlug toLowerCase t) \<and>
         (generateSlug toLowerCase t \<noteq> [] \<longrightarrow>
            hd (generateSlug toLowerCase t) \<noteq> hyphen \<and>
            last (generateSlug toLowerCase t) \<noteq> hyphen) \<and>
         generateSlug toLowerCase (generateSlug toLowerCase t) = generateSlug toLowerCase t"
proof -
  let ?r = "replace_runs (toLowerCase t)"
  let ?g = "generateSlug toLowerCase t"
  have g: "?g = strip_edge_hyphens ?r" by (simp add: generateSlug_def)
  note sp = strip_edge_hyphens_props[OF replace_runs_no_double[of "toLowerCase t"]]
  have chars: "\<forall>c \<in> set ?g. slug_alnum c \<or> c = hyphen"
    using sp(1) replace_runs_chars[of "toLowerCase t"] by (auto simp: g slug_char_def)
  have nd: "\<not> double_hyphen ?g" using sp(2) by (simp add: g)
  have edges: "?g \<noteq> [] \<longrightarrow> hd ?g \<noteq> hyphen \<and> last ?g \<noteq> hyphen"
    using sp(3) by (simp add: g)
  from assms chars have low: "toLowerCase ?g = ?g" by blast
  have "replace_runs ?g = ?g"
    using chars nd edges by (intro replace_runs_fixed) (auto simp: slug_char_def)
  with low edges have "generateSlug toLowerCase ?g = ?g"
    by (simp add: generateSlug_def[of toLowerCase ?g] strip_edge_hyphens_fixed)
  with chars nd edges show ?thesis by blast
qed

theorem generateSlug_shape_witness:
  "generateSlug ascii_lower sample_title = sample_slug \<and>
   list_all (\<lambda>c. slug_alnum c \<or> c = hyphen) sample_slug \<and>
   \<not> double_hyphen sample_slug \<and>
   hd sample_slug \<noteq> hyphen \<and> last sample_slug \<noteq> hyphen \<and>
   generateSlug ascii_lower sample_slug = sample_slug"
proof -
  have ne: "sample_slug \<noteq> []" by (simp add: sample_slug_def js_def)
  from generateSlug_shape[OF ascii_lower_fixes_slugs, of sample_title] ne
  show ?thesis by (simp add: sample_slug_generated list_all_iff)
qed

section \<open>The blog API client\<close>

lemma getAuthHeaders_token:
  "getAuthHeaders b = Inr auth \<Longrightarrow>
     \<exists>tok. getCSRFToken b = Inr tok \<and>
           auth = [(js ''X-CSRFToken'', (case tok of None \<Rightarrow> [] | Some t \<Rightarrow> t))]"
  by (auto simp: getAuthHeaders_def split: sum.splits)

lemma authenticated_call:
  assumes "issued b c = Inr rq" and "\<not> is_view_count c"
  shows "\<exists>auth. getAuthHeaders b = Inr auth \<and>
           (fc_headers rq = auth \<or>
            fc_headers rq = (js ''Content-Type'', js ''application/json'') # auth) \<and>
           fc_method rq \<in> {POST, PATCH, DELETE} \<and> fc_credentials rq = Some (js ''include'')"
  using assms
  by (cases c)
     (auto simp: createPost_def updatePost_def deletePost_def uploadBlogImage_def
        createCategory_def updateCategory_def deleteCategory_def createTag_def updateTag_def
        deleteTag_def Let_def
        split: sum.splits if_splits prod.splits)

lemma header_names_differ: "js ''Content-Type'' \<noteq> js ''X-CSRFToken''"
  by (simp add: js_def)

lemma sample_token: "getCSRFToken sample_browser = Inr (Some (js ''abc123''))"
  by (simp add: getCSRFToken_def getCookie_def getCookieName_def PROJECT_NAME_def or_default_def
      sample_browser_def trim_def js_space_def no_percent_decoding_def js_def Let_def)

lemma nbsp_token: "getCSRFToken nbsp_browser = Inr (Some (js ''abc''))"
  by (simp add: getCSRFToken_def getCookie_def getCookieName_def PROJECT_NAME_def or_default_def
      nbsp_browser_def trim_def js_space_def no_percent_decoding_def js_def Let_def)

lemma sample_createPost: "createPost sample_browser sample_post = Inr sample_createPost_call"
  by (simp add: createPost_def getAuthHeaders_def sample_token sample_post_def
      sample_createPost_call_def Let_def)
     (simp add: API_BASE_def or_default_def sample_browser_def js_def)

lemma nbsp_deletePost: "deletePost nbsp_browser (js ''hello-world'') = Inr nbsp_deletePost_call"
  by (simp add: deletePost_def getAuthHeaders_def nbsp_token nbsp_deletePost_call_def)
     (simp add: API_BASE_def or_default_def nbsp_browser_def js_def)

text \<open>
  Claim C5.  (as amended) Every request issued by createPost, updatePost, deletePost,
  uploadBlogImage and the category and tag functions is a POST, PATCH or DELETE with
  an X-CSRFToken header whose value is the CSRF token read from the cookie, or the
  empty string when there is no such cookie.  The POST of incrementViewCount has no
  header.
\<close>

theorem csrf_header_on_writes:
  assumes "issued b c = Inr rq"
  shows "fc_method rq \<in> {POST, PATCH, DELETE} \<and>
         (if is_view_count c then fc_headers rq = []
          else \<exists>tok. getCSRFToken b = Inr tok \<and>
                 header rq (js ''X-CSRFToken'')
                   = Some (case tok of None \<Rightarrow> [] | Some t \<Rightarrow> t))"
proof (cases "is_view_count c")
  case True
  then obtain slug where "c = IncrementViewCount slug" by (cases c) auto
  with assms show ?thesis by (auto simp: incrementViewCount_def)
next
  case False
  from authenticated_call[OF assms False] obtain auth where
    a: "getAuthHeaders b = Inr auth"
    and h: "fc_headers rq = auth \<or>
            fc_headers rq = (js ''Content-Type'', js ''application/json'') # auth"
    and m: "fc_method rq \<in> {POST, PATCH, DELETE}" by blast
  from getAuthHeaders_token[OF a] obtain tok where
    t: "getCSRFToken b = Inr tok"
       "auth = [(js ''X-CSRFToken'', (case tok of None \<Rightarrow> [] | Some t \<Rightarrow> t))]" by blast
  from h t(2)
  have "header rq (js ''X-CSRFToken'') = Some (case tok of None \<Rightarrow> [] | Some t \<Rightarrow> t)"
    using header_names_differ by (auto simp: header_def)
  with False m t(1) show ?thesis by simp
qed

theorem csrf_header_on_writes_witness:
  "createPost sample_browser sample_post = Inr sample_createPost_call \<and>
   getCSRFToken sample_browser = Inr (Some (js ''abc123'')) \<and>
   header sample_createPost_call (js ''X-CSRFToken'') = Some (js ''abc123'') \<and>
   deletePost nbsp_browser (js ''hello-world'') = Inr nbsp_deletePost_call \<and>
   getCSRFToken nbsp_browser = Inr (Some (js ''abc'')) \<and>
   header nbsp_deletePost_call (js ''X-CSRFToken'') = Some (js ''abc'')"
  using csrf_header_on_writes[of sample_browser "CreatePost sample_post", unfolded issued.simps,
      OF sample_createPost]
    csrf_header_on_writes[of nbsp_browser "DeletePost (js ''hello-world'')",
      unfolded issued.simps, OF nbsp_deletePost]
    sample_createPost sample_token nbsp_deletePost nbsp_token
  by simp

text \<open>
  The claim as written counts incrementViewCount among the requests with the header; its
  request has none, also when the cookie is there.
\<close>

theorem view_count_without_csrf_counterexample:
  "incrementViewCount sample_browser (js ''hello-world'') = Inr sample_view_call \<and>
   fc_method sample_view_call = POST \<and>
   getCSRFToken sample_browser = Inr (Some (js ''abc123'')) \<and>
   header sample_view_call (js ''X-CSRFToken'') = None"
  using sample_token
  by (simp add: incrementViewCount_def API_BASE_def or_default_def sample_browser_def header_def
      sample_view_call_def js_def)

section \<open>The theme loader\<close>

lemma map_of_update_prop: "map_of (update_prop k v props) = (map_of props)(k \<mapsto> v)"
  by (induction props) auto

lemma get_set_same: "get_prop (set_prop (JObj props) k v) k = Some v"
  by (simp add: map_of_update_prop)

lemma get_set_other: "k' \<noteq> k \<Longrightarrow> get_prop (set_prop d k v) k' = get_prop d k'"
  by (cases d) (simp_all add: map_of_update_prop)

lemma validated_is_object: "validateThemeData d \<Longrightarrow> \<exists>props. d = JObj props"
  by (cases d) (simp_all add: validateThemeData_def)

lemma loadThemes_origin:
  "loadThemes themeImports reg k = Some t \<Longrightarrow>
     reg k = Some t \<or>
     (\<exists>d. (k, d) \<in> set themeImports \<and> validateThemeData d \<and> t = normalizeThemeData d)"
proof (induction themeImports arbitrary: reg)
  case Nil
  then show ?case by simp
next
  case (Cons e rest)
  obtain themeName themeData where e: "e = (themeName, themeData)" by (cases e)
  show ?case
  proof (cases "validateThemeData themeData")
    case True
    with Cons.prems e
    have "loadThemes rest (reg(themeName \<mapsto> normalizeThemeData themeData)) k = Some t" by simp
    from Cons.IH[OF this] True e show ?thesis by (auto split: if_splits)
  next
    case False
    with Cons.prems e have "loadThemes rest reg k = Some t" by simp
    from Cons.IH[OF this] show ?thesis by auto
  qed
qed

lemma truthy_Some: "truthy x \<Longrightarrow> \<exists>v. x = Some v"
  by (cases x) simp_all

lemma normalized_theme:
  assumes "validateThemeData d"
  shows "truthy (get_prop (normalizeThemeData d) ''theme_name'')"
    and "get_prop (normalizeThemeData d) ''theme_name'' =
           (if truthy (get_prop d ''theme_name'') then get_prop d ''theme_name''
            else get_prop d ''name'')"
    and "get_prop (normalizeThemeData d) ''success'' =
           (case get_prop d ''success'' of None \<Rightarrow> Some (JBool True) | Some v \<Rightarrow> Some v)"
    and "get_prop (normalizeThemeData d) ''display_name'' = get_prop d ''display_name''"
    and "get_prop (normalizeThemeData d) ''cssVars'' = get_prop d ''cssVars''"
    and "typeof_object (normalizeThemeData d)"
proof -
  from validated_is_object[OF assms] obtain props where d: "d = JObj props" by blast
  from assms have n: "truthy (get_prop d ''theme_name'') \<or> truthy (get_prop d ''name'')"
    by (simp add: validateThemeData_def)
  define d1 where "d1 = (if \<not> truthy (get_prop d ''theme_name'') \<and> truthy (get_prop d ''name'')
             then set_prop d ''theme_name'' (the (get_prop d ''name'')) else d)"
  have nd: "normalizeThemeData d =
     (if get_prop d1 ''success'' = None then set_prop d1 ''success'' (JBool True) else d1)"
    by (simp add: normalizeThemeData_def Let_def d1_def)
  have "\<exists>ps. d1 = JObj ps" by (simp add: d1_def d)
  then obtain ps where ps: "d1 = JObj ps" ..
  have tn: "get_prop d1 ''theme_name'' =
           (if truthy (get_prop d ''theme_name'') then get_prop d ''theme_name''
            else get_prop d ''name'')"
  proof (cases "truthy (get_prop d ''theme_name'')")
    case True
    then show ?thesis by (simp add: d1_def)
  next
    case False
    with n have t: "truthy (get_prop d ''name'')" by simp
    then obtain v where v: "get_prop d ''name'' = Some v" using truthy_Some by blast
    from False t have "d1 = set_prop (JObj props) ''theme_name'' v"
      by (simp add: d1_def v d[symmetric])
    then have "get_prop d1 ''theme_name'' = Some v" by (simp only: get_set_same)
    with False v show ?thesis by simp
  qed
  have other: "get_prop d1 k = get_prop d k" if "k \<noteq> ''theme_name''" for k
    using that by (simp add: d1_def get_set_other)
  have outer: "get_prop (normalizeThemeData d) k = get_prop d1 k" if "k \<noteq> ''success''" for k
    using that by (simp add: nd get_set_other)
  show tn': "get_prop (normalizeThemeData d) ''theme_name'' =
           (if truthy (get_prop d ''theme_name'') then get_prop d ''theme_name''
            else get_prop d ''name'')"
    using outer[of "''theme_name''"] tn by simp
  from n show "truthy (get_prop (normalizeThemeData d) ''theme_name'')"
    unfolding tn' by auto
  show "get_prop (normalizeThemeData d) ''success'' =
           (case get_prop d ''success'' of None \<Rightarrow> Some (JBool True) | Some v \<Rightarrow> Some v)"
  proof (cases "get_prop d1 ''success''")
    case None
    from None other[of "''success''"] have "get_prop d ''success'' = None" by simp
    moreover from None have "normalizeThemeData d = set_prop (JObj ps) ''success'' (JBool True)"
      by (simp add: nd ps)
    then have "get_prop (normalizeThemeData d) ''success'' = Some (JBool True)"
      by (simp only: get_set_same)
    ultimately show ?thesis by simp
  next
    case (Some v)
    with other[of "''success''"] have "get_prop d ''success'' = Some v" by simp
    moreover from Some have "get_prop (normalizeThemeData d) ''success'' = Some v"
      by (simp add: nd)
    ultimately show ?thesis by simp
  qed
  show "get_prop (normalizeThemeData d) ''display_name'' = get_prop d ''display_name''"
    using outer[of "''display_name''"] other[of "''display_name''"] by simp
  show "get_prop (normalizeThemeData d) ''cssVars'' = get_prop d ''cssVars''"
    using outer[of "''cssVars''"] other[of "''cssVars''"] by simp
  show "typeof_object (normalizeThemeData d)"
    by (simp add: nd ps)
qed

lemma sample_themes_loaded:
  "loadThemes [(''mono'', mono_theme), (''broken'', broken_theme)] Map.empty
     = [''mono'' \<mapsto> mono_loaded]"
  by (simp add: validateThemeData_def normalizeThemeData_def mono_theme_def broken_theme_def
      mono_loaded_def css_groups_def get_path_def Let_def)

text \<open>
  Claim C6.  (as amended) An entry that loadThemes has written to the registry is the
  normalised form of imported data that passed validation.  It is an object with a
  truthy display_name and truthy cssVars.theme, cssVars.light and cssVars.dark; its
  theme_name is truthy (the data's own, or else the data's name); and its success
  property is defined: true when the data had none, otherwise the data's own value.
\<close>

theorem loaded_themes_valid:
  assumes "loadThemes themeImports reg k = Some t" and "reg k \<noteq> Some t"
  shows "\<exists>d. (k, d) \<in> set themeImports \<and> validateThemeData d \<and> t = normalizeThemeData d \<and>
           typeof_object t \<and>
           truthy (get_prop t ''display_name'') \<and>
           truthy (get_path t ''cssVars'' ''theme'') \<and>
           truthy (get_path t ''cssVars'' ''light'') \<and>
           truthy (get_path t ''cssVars'' ''dark'') \<and>
           truthy (get_prop t ''theme_name'') \<and>
           get_prop t ''theme_name'' =
             (if truthy (get_prop d ''theme_name'') then get_prop d ''theme_name''
              else get_prop d ''name'') \<and>
           get_prop t ''success'' =
             (case get_prop d ''success'' of None \<Rightarrow> Some (JBool True) | Some v \<Rightarrow> Some v)"
proof -
  from loadThemes_origin[OF assms(1)] assms(2) obtain d where
    d: "(k, d) \<in> set themeImports" "validateThemeData d" and t: "t = normalizeThemeData d"
    by blast
  note n = normalized_theme[OF d(2)]
  have paths: "get_path (normalizeThemeData d) ''cssVars'' g = get_path d ''cssVars'' g" for g
    by (simp add: get_path_def n(5))
  from d(2) have v: "truthy (get_prop d ''display_name'')"
    "truthy (get_path d ''cssVars'' ''theme'')" "truthy (get_path d ''cssVars'' ''light'')"
    "truthy (get_path d ''cssVars'' ''dark'')"
    by (simp_all add: validateThemeData_def)
  have "(k, d) \<in> set themeImports \<and> validateThemeData d \<and> t = normalizeThemeData d \<and>
           typeof_object t \<and>
           truthy (get_prop t ''display_name'') \<and>
           truthy (get_path t ''cssVars'' ''theme'') \<and>
           truthy (get_path t ''cssVars'' ''light'') \<and>
           truthy (get_path t ''cssVars'' ''dark'') \<and>
           truthy (get_prop t ''theme_name'') \<and>
           get_prop t ''theme_name'' =
             (if truthy (get_prop d ''theme_name'') then get_prop d ''theme_name''
              else get_prop d ''name'') \<and>
           get_prop t ''success'' =
             (case get_prop d ''success'' of None \<Rightarrow> Some (JBool True) | Some v \<Rightarrow> Some v)"
    using d v n(1,2,3,6) unfolding t by (simp add: paths n(4))
  then show ?thesis by blast
qed

theorem loaded_themes_valid_witness:
  "loadThemes [(''mono'', mono_theme), (''broken'', broken_theme)] Map.empty ''mono''
     = Some mono_loaded \<and>
   loadThemes [(''mono'', mono_theme), (''broken'', broken_theme)] Map.empty ''broken'' = None \<and>
   validateThemeData mono_theme \<and> \<not> validateThemeData broken_theme \<and>
   truthy (get_prop mono_loaded ''display_name'') \<and>
   truthy (get_path mono_loaded ''cssVars'' ''dark'') \<and>
   get_prop mono_loaded ''theme_name'' = Some (JStr ''mono'') \<and>
   get_prop mono_loaded ''success'' = Some (JBool True)"
proof -
  have l: "loadThemes [(''mono'', mono_theme), (''broken'', broken_theme)] Map.empty ''mono''
             = Some mono_loaded"
    and b: "loadThemes [(''mono'', mono_theme), (''broken'', broken_theme)] Map.empty ''broken''
             = None"
    by (simp_all only: sample_themes_loaded) simp_all
  have e: "Map.empty ''mono'' \<noteq> Some mono_loaded" by simp
  from loaded_themes_valid[OF l e] obtain d where
    d: "(''mono'', d) \<in> set [(''mono'', mono_theme), (''broken'', broken_theme)]"
    and v: "validateThemeData d"
    and rest: "truthy (get_prop mono_loaded ''display_name'')"
      "truthy (get_path mono_loaded ''cssVars'' ''dark'')"
      "get_prop mono_loaded ''theme_name'' =
         (if truthy (get_prop d ''theme_name'') then get_prop d ''theme_name''
          else get_prop d ''name'')"
      "get_prop mono_loaded ''success'' =
         (case get_prop d ''success'' of None \<Rightarrow> Some (JBool True) | Some v \<Rightarrow> Some v)"
    by blast
  from d have dm: "d = mono_theme" by simp
  have nb: "\<not> validateThemeData broken_theme"
    by (simp add: validateThemeData_def broken_theme_def)
  from rest(3,4) have "get_prop mono_loaded ''theme_name'' = Some (JStr ''mono'')"
    "get_prop mono_loaded ''success'' = Some (JBool True)"
    by (simp_all add: dm mono_theme_def)
  with l b v nb rest(1,2) show ?thesis by (simp add: dm)
qed

text \<open>
  The claim as written says success is true after normalisation.  Data that passes
  validation and says \<^verbatim>\<open>"success": false\<close> keeps it.
\<close>

theorem success_kept_counterexample:
  "validateThemeData quiet_theme \<and>
   get_prop quiet_theme ''success'' = Some (JBool False) \<and>
   loadThemes [(''quiet'', quiet_theme)] Map.empty ''quiet'' = Some quiet_loaded \<and>
   get_prop quiet_loaded ''success'' = Some (JBool False)"
  by (simp add: validateThemeData_def normalizeThemeData_def quiet_theme_def quiet_loaded_def
      css_groups_def get_path_def Let_def)

end
